theory Spec2Isabelle
  imports Complex_Main
begin

section \<open>JSON trees and runtime values\<close>

text \<open>
  Jexl programs are JSON documents. The interpreter and the macro expander work on the
  parsed JavaScript value, inspecting keys at run time, so expressions are modelled as
  plain JSON trees and not as a typed syntax.

  A JavaScript number is an IEEE double. Every finite double is a rational; the two zeros
  are kept apart, as are the infinities and NaN. Arithmetic on doubles (rounding) is not
  modelled: the arithmetic builtins are parameters of the evaluator (see \<open>host\<close>).
\<close>

datatype number = Finite rat | NegZero | PosInf | NegInf | NaN

text \<open>
  An object is the list of its own properties in the order of \<^verbatim>\<open>Object.keys\<close>; keys are
  distinct.
\<close>

datatype json =
    JNull
  | JBool bool
  | JNum number
  | JStr string
  | JArr "json list"
  | JObj "(string \<times> json) list"

text \<open>Errors thrown by the expander, the evaluator and the runner.\<close>

datatype error =
    UndefinedVariable string
  | UndefinedFunction string
  | ArityMismatch string nat nat
  | MacroNotImplemented
  | ImportNotImplemented
  | InvalidProgramTypes
  | NoProgram
  | TypeError

text \<open>
  The result of running code that may throw or recurse without bound. \<open>OutOfFuel\<close> is
  returned when the recursion budget is used up. \<open>Unmodelled\<close> marks inputs that the
  TypeScript signatures exclude (a non-string where a name is declared \<^verbatim>\<open>string\<close>, a
  parameter list that is not an array) and about which the model says nothing.
\<close>

datatype 'a outcome = Done 'a | Throw error | OutOfFuel | Unmodelled

fun outcome_bind :: "'a outcome \<Rightarrow> ('a \<Rightarrow> 'b outcome) \<Rightarrow> 'b outcome" where
  "outcome_bind (Done x) f = f x"
| "outcome_bind (Throw e) f = Throw e"
| "outcome_bind OutOfFuel f = OutOfFuel"
| "outcome_bind Unmodelled f = Unmodelled"

section \<open>The macro expander (macro.ts)\<close>

datatype param = PName string | PTyped string string

record macro_def =
  macro_name :: string
  macro_params :: "param list"
  macro_body :: json

fun getParamName :: "param \<Rightarrow> string" where
  "getParamName (PName s) = s"
| "getParamName (PTyped k t) = k"

fun isExpressionArray :: "json \<Rightarrow> bool" where
  "isExpressionArray (JArr xs) = True"
| "isExpressionArray v = False"

fun isExpressionObject :: "json \<Rightarrow> bool" where
  "isExpressionObject (JArr xs) = True"
| "isExpressionObject (JObj kvs) = True"
| "isExpressionObject v = False"

fun is_primitive :: "json \<Rightarrow> bool" where
  "is_primitive (JArr xs) = False"
| "is_primitive (JObj kvs) = False"
| "is_primitive v = True"

text \<open>The decimal spelling of an array index, as \<^verbatim>\<open>Object.keys\<close> of an array gives it.\<close>

definition digit_char :: "nat \<Rightarrow> char" where
  "digit_char d = ''0123456789'' ! d"

fun decimal :: "nat \<Rightarrow> string" where
  "decimal n = (if n < 10 then [digit_char n] else decimal (n div 10) @ [digit_char (n mod 10)])"

text \<open>\<^verbatim>\<open>Object.keys(expr)\<close> paired with \<^verbatim>\<open>expr[key]\<close>, for an object or an array.\<close>

fun entries :: "json \<Rightarrow> (string \<times> json) list" where
  "entries (JObj kvs) = kvs"
| "entries (JArr xs) = zip (map decimal [0..<length xs]) xs"
| "entries v = []"

text \<open>
  \<^verbatim>\<open>args[i]\<close> for the value stored under the macro's name. \<open>Done None\<close> is
  \<^verbatim>\<open>undefined\<close>; indexing \<^verbatim>\<open>null\<close> throws. Strings are indexed by character.
\<close>

fun js_index :: "json \<Rightarrow> nat \<Rightarrow> json option outcome" where
  "js_index (JArr xs) i = Done (if i < length xs then Some (xs ! i) else None)"
| "js_index (JObj kvs) i = Done (map_of kvs (decimal i))"
| "js_index (JStr s) i = Done (if i < length s then Some (JStr [s ! i]) else None)"
| "js_index JNull i = Throw TypeError"
| "js_index v i = Done None"

text \<open>
  The \<^verbatim>\<open>forEach\<close> over the macro's parameters: each parameter name is set to
  \<^verbatim>\<open>args[i]\<close>. A name set to \<^verbatim>\<open>undefined\<close> is never substituted (the
  \<^verbatim>\<open>boundValue !== undefined\<close> test of \<open>substitute\<close>), which is the same as the name
  being absent, so it is removed from the map.
\<close>

fun bind_params :: "param list \<Rightarrow> nat \<Rightarrow> json \<Rightarrow> (string \<rightharpoonup> json) \<Rightarrow> (string \<rightharpoonup> json) outcome" where
  "bind_params [] i args b = Done b"
| "bind_params (p # ps) i args b =
     outcome_bind (js_index args i)
       (\<lambda>a. bind_params ps (Suc i) args (b(getParamName p := a)))"

text \<open>
  \<open>substitute\<close>: a \<^verbatim>\<open>{ref: name}\<close> node whose name is bound is replaced by the bound
  expression; everything else is rebuilt key by key into a fresh object.
  \<open>substitute_value\<close> is the body of the rebuilding loop, applied to the value of each
  key: \<^verbatim>\<open>value.map((v) => substitute(v, bindings))\<close> for an array (\<open>substitute_array\<close>),
  \<open>substitute\<close> for another object, the value itself otherwise. When the expression is
  itself an array, its keys are its indices and the loop body is applied to each element
  (\<open>substitute_elements\<close>): an element that is an array stays an array.
\<close>

fun substitute :: "json \<Rightarrow> (string \<rightharpoonup> json) \<Rightarrow> json"
and substitute_value :: "json \<Rightarrow> (string \<rightharpoonup> json) \<Rightarrow> json"
and substitute_array :: "json list \<Rightarrow> (string \<rightharpoonup> json) \<Rightarrow> json list"
and substitute_elements :: "json list \<Rightarrow> (string \<rightharpoonup> json) \<Rightarrow> json list"
and substitute_entries :: "(string \<times> json) list \<Rightarrow> (string \<rightharpoonup> json) \<Rightarrow> (string \<times> json) list"
where
  "substitute (JObj kvs) b =
     (case map_of kvs ''ref'' of
        Some (JStr r) \<Rightarrow>
          (case b r of Some bound \<Rightarrow> bound | None \<Rightarrow> JObj (substitute_entries kvs b))
      | _ \<Rightarrow> JObj (substitute_entries kvs b))"
| "substitute (JArr xs) b =
     JObj (zip (map decimal [0..<length xs]) (substitute_elements xs b))"
| "substitute JNull b = JNull"
| "substitute (JBool v) b = JBool v"
| "substitute (JNum v) b = JNum v"
| "substitute (JStr v) b = JStr v"
| "substitute_value (JArr xs) b = JArr (substitute_array xs b)"
| "substitute_value (JObj kvs) b = substitute (JObj kvs) b"
| "substitute_value JNull b = JNull"
| "substitute_value (JBool v) b = JBool v"
| "substitute_value (JNum v) b = JNum v"
| "substitute_value (JStr v) b = JStr v"
| "substitute_array [] b = []"
| "substitute_array (x # xs) b = substitute x b # substitute_array xs b"
| "substitute_elements [] b = []"
| "substitute_elements (x # xs) b = substitute_value x b # substitute_elements xs b"
| "substitute_entries [] b = []"
| "substitute_entries ((k, v) # kvs) b = (k, substitute_value v b) # substitute_entries kvs b"

text \<open>
  \<open>expand\<close>. The source recurses without a bound, so the model takes a recursion budget:
  every call of \<open>expand\<close> uses one unit, and \<open>OutOfFuel\<close> is the answer when none is
  left. A single-key object (or one-element array) whose key names a macro is replaced by
  the substituted body, which is expanded again; anything else is rebuilt key by key into
  a fresh object. \<open>expand_value\<close> is the body of the rebuilding loop: the value of a key
  is mapped over when \<open>isExpressionArray\<close> holds of it, expanded when
  \<open>isExpressionObject\<close> does, and copied otherwise (\<open>substitute_value\<close> above likewise).
\<close>

fun macro_invocation :: "json \<Rightarrow> (string \<rightharpoonup> macro_def) \<Rightarrow> (macro_def \<times> json) option" where
  "macro_invocation expr macros =
     (case entries expr of
        [(macroName, args)] \<Rightarrow>
          (case macros macroName of Some macroDef \<Rightarrow> Some (macroDef, args) | None \<Rightarrow> None)
      | _ \<Rightarrow> None)"

fun expand :: "nat \<Rightarrow> json \<Rightarrow> (string \<rightharpoonup> macro_def) \<Rightarrow> json outcome"
and expand_value :: "nat \<Rightarrow> json \<Rightarrow> (string \<rightharpoonup> macro_def) \<Rightarrow> json outcome"
and expand_array :: "nat \<Rightarrow> json list \<Rightarrow> (string \<rightharpoonup> macro_def) \<Rightarrow> json list outcome"
and expand_entries :: "nat \<Rightarrow> (string \<times> json) list \<Rightarrow> (string \<rightharpoonup> macro_def) \<Rightarrow> (string \<times> json) list outcome"
where
  "expand 0 expr macros = OutOfFuel"
| "expand (Suc n) expr macros =
     (if is_primitive expr then Done expr
      else case macro_invocation expr macros of
        Some (macroDef, args) \<Rightarrow>
          outcome_bind (bind_params (macro_params macroDef) 0 args Map.empty)
            (\<lambda>bindings. expand n (substitute (macro_body macroDef) bindings) macros)
      | None \<Rightarrow>
          outcome_bind (expand_entries n (entries expr) macros) (\<lambda>kvs. Done (JObj kvs)))"
| "expand_value n (JArr xs) macros = outcome_bind (expand_array n xs macros) (\<lambda>ys. Done (JArr ys))"
| "expand_value n (JObj kvs) macros = expand n (JObj kvs) macros"
| "expand_value n JNull macros = Done JNull"
| "expand_value n (JBool v) macros = Done (JBool v)"
| "expand_value n (JNum v) macros = Done (JNum v)"
| "expand_value n (JStr v) macros = Done (JStr v)"
| "expand_array n [] macros = Done []"
| "expand_array n (x # xs) macros =
     outcome_bind (expand n x macros)
       (\<lambda>y. outcome_bind (expand_array n xs macros) (\<lambda>ys. Done (y # ys)))"
| "expand_entries n [] macros = Done []"
| "expand_entries n ((k, v) # kvs) macros =
     outcome_bind (expand_value n v macros)
       (\<lambda>w. outcome_bind (expand_entries n kvs macros) (\<lambda>rest. Done ((k, w) # rest)))"

section \<open>Runtime values and environments\<close>

text \<open>
  \<^verbatim>\<open>JexlValue\<close>. Arrays and objects are JavaScript objects: each carries the identity
  (address) it was created with, next to its contents. Values are never mutated by the
  interpreter. \<open>VUndef\<close> is \<^verbatim>\<open>undefined\<close>, which \<^verbatim>\<open>print\<close> returns and a missing
  argument reads as.
\<close>

type_synonym addr = nat

datatype val =
    VUndef
  | VNull
  | VBool bool
  | VNum number
  | VStr string
  | VArr addr "val list"
  | VObj addr "(string \<times> val) list"

datatype builtin = Add | Subtract | Multiply | Divide | Less | Greater | Equals | Print | Concat

text \<open>
  A user function is the record \<^verbatim>\<open>{params, body}\<close> exactly as destructured from the
  definition: either field may be \<^verbatim>\<open>undefined\<close>. No environment is stored with it.
\<close>

datatype func = Builtin builtin | UserFunction "json option" "json option"

datatype Environment =
  Environment (vars: "string \<rightharpoonup> val") (funcs: "string \<rightharpoonup> func") (parent: "Environment option")

fun getVar :: "Environment \<Rightarrow> string \<Rightarrow> val outcome" where
  "getVar (Environment vs fs p) name =
     (case vs name of
        Some v \<Rightarrow> Done v
      | None \<Rightarrow> (case p of Some up \<Rightarrow> getVar up name | None \<Rightarrow> Throw (UndefinedVariable name)))"

fun setVar :: "Environment \<Rightarrow> string \<Rightarrow> val \<Rightarrow> Environment" where
  "setVar (Environment vs fs p) name v = Environment (vs(name \<mapsto> v)) fs p"

fun defineFunction :: "Environment \<Rightarrow> string \<Rightarrow> func \<Rightarrow> Environment" where
  "defineFunction (Environment vs fs p) name fn = Environment vs (fs(name \<mapsto> fn)) p"

fun getFunction :: "Environment \<Rightarrow> string \<Rightarrow> func outcome" where
  "getFunction (Environment vs fs p) name =
     (case fs name of
        Some fn \<Rightarrow> Done fn
      | None \<Rightarrow> (case p of Some up \<Rightarrow> getFunction up name | None \<Rightarrow> Throw (UndefinedFunction name)))"

section \<open>Builtins\<close>

text \<open>
  What the host language computes and the model does not: the arithmetic and comparison
  operators on doubles (with JavaScript's coercions), \<^verbatim>\<open>String(x)\<close>, and the JSON Schema
  library behind \<open>validateJsonSchema\<close>.
\<close>

record host =
  arith :: "builtin \<Rightarrow> val \<Rightarrow> val \<Rightarrow> val"
  to_string :: "val \<Rightarrow> string"
  ajv_validateSchema :: "json \<Rightarrow> bool"

text \<open>JavaScript's \<^verbatim>\<open>===\<close>: primitives by value, objects by identity, NaN equal to nothing.\<close>

fun number_equals :: "number \<Rightarrow> number \<Rightarrow> bool" where
  "number_equals NaN y = False"
| "number_equals NegZero y = (y = NegZero \<or> y = Finite 0)"
| "number_equals (Finite q) y = (y = Finite q \<or> (q = 0 \<and> y = NegZero))"
| "number_equals PosInf y = (y = PosInf)"
| "number_equals NegInf y = (y = NegInf)"

fun strict_equals :: "val \<Rightarrow> val \<Rightarrow> bool" where
  "strict_equals VUndef b = (b = VUndef)"
| "strict_equals VNull b = (b = VNull)"
| "strict_equals (VBool x) b = (b = VBool x)"
| "strict_equals (VNum x) b = (case b of VNum y \<Rightarrow> number_equals x y | _ \<Rightarrow> False)"
| "strict_equals (VStr x) b = (b = VStr x)"
| "strict_equals (VArr i xs) b = (case b of VArr j ys \<Rightarrow> i = j | _ \<Rightarrow> False)"
| "strict_equals (VObj i xs) b = (case b of VObj j ys \<Rightarrow> i = j | _ \<Rightarrow> False)"

text \<open>The i-th argument of a JavaScript call; a missing one is \<^verbatim>\<open>undefined\<close>.\<close>

definition argument :: "val list \<Rightarrow> nat \<Rightarrow> val" where
  "argument args i = (if i < length args then args ! i else VUndef)"

text \<open>
  A builtin applied to the evaluated arguments, with the console it may write to.
  \<^verbatim>\<open>print\<close> appends one line (the argument list) and returns \<^verbatim>\<open>undefined\<close>.
\<close>

fun call_builtin :: "host \<Rightarrow> builtin \<Rightarrow> val list \<Rightarrow> val list list \<Rightarrow> val \<times> val list list" where
  "call_builtin H Equals args out = (VBool (strict_equals (argument args 0) (argument args 1)), out)"
| "call_builtin H Print args out = (VUndef, out @ [args])"
| "call_builtin H Concat args out = (VStr (concat (map (to_string H) args)), out)"
| "call_builtin H b args out = (arith H b (argument args 0) (argument args 1), out)"

definition builtins :: "(string \<times> func) list" where
  "builtins =
     [(''add'', Builtin Add), (''subtract'', Builtin Subtract), (''multiply'', Builtin Multiply),
      (''divide'', Builtin Divide), (''less'', Builtin Less), (''greater'', Builtin Greater),
      (''equals'', Builtin Equals), (''print'', Builtin Print), (''concat'', Builtin Concat)]"

fun install :: "(string \<times> func) list \<Rightarrow> Environment \<Rightarrow> Environment" where
  "install [] e = e"
| "install ((name, fn) # rest) e = install rest (defineFunction e name fn)"

definition createGlobalEnv :: Environment where
  "createGlobalEnv = install builtins (Environment Map.empty Map.empty None)"

section \<open>The evaluator\<close>

text \<open>
  The repository holds two copies of the interpreter. They differ in their type
  annotations, in the presence test of \<^verbatim>\<open>getFunction\<close> (\<^verbatim>\<open>get\<close> and a comparison with
  \<^verbatim>\<open>undefined\<close> in one, \<^verbatim>\<open>has\<close> in the other: the same, since no stored function is
  \<^verbatim>\<open>undefined\<close>) and in \<^verbatim>\<open>concat\<close> (\<^verbatim>\<open>args.map(String).join("")\<close> in one,
  \<^verbatim>\<open>args.join("")\<close> in the other). The model follows the annotated copy.
\<close>

text \<open>
  The interpreter state: the environment object \<open>evaluate\<close> was handed, and the lines
  written to the console so far. A result is paired with the state reached, also when
  the code throws: what was written or bound before the throw stays.
\<close>

record state =
  cur_env :: Environment
  console :: "val list list"

fun eval_bind :: "'a outcome \<times> 's \<Rightarrow> ('a \<Rightarrow> 's \<Rightarrow> 'b outcome \<times> 's) \<Rightarrow> 'b outcome \<times> 's" where
  "eval_bind (Done x, s) f = f x s"
| "eval_bind (Throw e, s) f = (Throw e, s)"
| "eval_bind (OutOfFuel, s) f = (OutOfFuel, s)"
| "eval_bind (Unmodelled, s) f = (Unmodelled, s)"

text \<open>A literal expression is its own value.\<close>

fun literal_val :: "json \<Rightarrow> val" where
  "literal_val JNull = VNull"
| "literal_val (JBool b) = VBool b"
| "literal_val (JNum x) = VNum x"
| "literal_val (JStr s) = VStr s"
| "literal_val v = VUndef"

text \<open>
  JavaScript truthiness, of a runtime value (\<^verbatim>\<open>condResult ? ... : ...\<close>) and of an
  expression node (\<^verbatim>\<open>thenExpr ? ... : null\<close>).
\<close>

fun number_truthy :: "number \<Rightarrow> bool" where
  "number_truthy (Finite q) = (q \<noteq> 0)"
| "number_truthy NegZero = False"
| "number_truthy NaN = False"
| "number_truthy PosInf = True"
| "number_truthy NegInf = True"

fun truthy :: "val \<Rightarrow> bool" where
  "truthy VUndef = False"
| "truthy VNull = False"
| "truthy (VBool b) = b"
| "truthy (VNum x) = number_truthy x"
| "truthy (VStr s) = (s \<noteq> [])"
| "truthy (VArr i xs) = True"
| "truthy (VObj i kvs) = True"

fun truthy_node :: "json \<Rightarrow> bool" where
  "truthy_node JNull = False"
| "truthy_node (JBool b) = b"
| "truthy_node (JNum x) = number_truthy x"
| "truthy_node (JStr s) = (s \<noteq> [])"
| "truthy_node (JArr xs) = True"
| "truthy_node (JObj kvs) = True"

text \<open>
  \<^verbatim>\<open>expr[key]\<close> for an own property of a non-null value; \<open>None\<close> is \<^verbatim>\<open>undefined\<close>.
  \<^verbatim>\<open>key in expr\<close> is \<open>has_key\<close>.
\<close>

definition own :: "json \<Rightarrow> string \<Rightarrow> json option" where
  "own expr k = map_of (entries expr) k"

definition has_key :: "json \<Rightarrow> string \<Rightarrow> bool" where
  "has_key expr k = (own expr k \<noteq> None)"

text \<open>
  The destructuring \<^verbatim>\<open>([paramName], idx)\<close> of one entry of \<^verbatim>\<open>func.params\<close>: the first
  element of an array, the first character of a string; an object, a number, a boolean
  or null is not iterable. Where the first element is not a string the key is outside
  the model.
\<close>

fun param_key :: "json \<Rightarrow> string outcome" where
  "param_key (JArr (JStr name # rest)) = Done name"
| "param_key (JArr xs) = Unmodelled"
| "param_key (JStr (c # cs)) = Done [c]"
| "param_key (JStr []) = Unmodelled"
| "param_key v = Throw TypeError"

text \<open>\<^verbatim>\<open>func.params.forEach(([paramName], idx) => localEnv.setVar(paramName, evaluatedArgs[idx]))\<close>\<close>

fun bind_arguments :: "json list \<Rightarrow> nat \<Rightarrow> val list \<Rightarrow> Environment \<Rightarrow> Environment outcome" where
  "bind_arguments [] idx evaluatedArgs localEnv = Done localEnv"
| "bind_arguments (p # ps) idx evaluatedArgs localEnv =
     outcome_bind (param_key p)
       (\<lambda>paramName. bind_arguments ps (Suc idx) evaluatedArgs
          (setVar localEnv paramName (argument evaluatedArgs idx)))"

text \<open>
  The frame of a call to a user function: \<^verbatim>\<open>new Environment(env)\<close>, the arity check,
  then the parameters bound in order. Reading \<^verbatim>\<open>length\<close> of \<^verbatim>\<open>undefined\<close> or
  \<^verbatim>\<open>null\<close> throws; a string has a length but no \<^verbatim>\<open>forEach\<close>; any other parameter
  list that is not an array is outside the model.
\<close>

fun local_env :: "string \<Rightarrow> json option \<Rightarrow> val list \<Rightarrow> Environment \<Rightarrow> Environment outcome" where
  "local_env funcName None evaluatedArgs env = Throw TypeError"
| "local_env funcName (Some JNull) evaluatedArgs env = Throw TypeError"
| "local_env funcName (Some (JArr ps)) evaluatedArgs env =
     (if length ps \<noteq> length evaluatedArgs
      then Throw (ArityMismatch funcName (length ps) (length evaluatedArgs))
      else bind_arguments ps 0 evaluatedArgs (Environment Map.empty Map.empty (Some env)))"
| "local_env funcName (Some (JStr s)) evaluatedArgs env =
     (if length s \<noteq> length evaluatedArgs
      then Throw (ArityMismatch funcName (length s) (length evaluatedArgs))
      else Throw TypeError)"
| "local_env funcName (Some other) evaluatedArgs env = Unmodelled"

text \<open>The receiver of \<^verbatim>\<open>args.map\<close>: only an array has the method.\<close>

fun map_receiver :: "json \<Rightarrow> json list outcome" where
  "map_receiver (JArr xs) = Done xs"
| "map_receiver v = Throw TypeError"

text \<open>
  The caller's environment object after a call: the object the callee's frame points to
  as its parent.
\<close>

definition caller_env :: "Environment \<Rightarrow> Environment \<Rightarrow> Environment" where
  "caller_env localEnv callerEnv = (case parent localEnv of Some up \<Rightarrow> up | None \<Rightarrow> callerEnv)"

text \<open>
  \<^verbatim>\<open>evaluate(undefined, env)\<close>: the \<^verbatim>\<open>in\<close> test on \<^verbatim>\<open>undefined\<close> throws.
  In the functions below \<open>ev\<close> stands for \<^verbatim>\<open>evaluate\<close>.
\<close>

fun evaluate_opt :: "(json \<Rightarrow> state \<Rightarrow> val outcome \<times> state) \<Rightarrow> json option \<Rightarrow> state \<Rightarrow> val outcome \<times> state" where
  "evaluate_opt ev None st = (Throw TypeError, st)"
| "evaluate_opt ev (Some expr) st = ev expr st"

text \<open>
  A branch of an if: \<^verbatim>\<open>thenExpr ? evaluate(thenExpr, env) : null\<close>. The test is on the
  expression node, which is \<^verbatim>\<open>undefined\<close> when the field is absent.
\<close>

fun evaluate_branch :: "(json \<Rightarrow> state \<Rightarrow> val outcome \<times> state) \<Rightarrow> json option \<Rightarrow> state \<Rightarrow> val outcome \<times> state" where
  "evaluate_branch ev None st = (Done VNull, st)"
| "evaluate_branch ev (Some branchExpr) st =
     (if truthy_node branchExpr then ev branchExpr st else (Done VNull, st))"

text \<open>\<^verbatim>\<open>args.map((arg) => evaluate(arg, env))\<close>, left to right.\<close>

fun evaluate_args :: "(json \<Rightarrow> state \<Rightarrow> val outcome \<times> state) \<Rightarrow> json list \<Rightarrow> state \<Rightarrow> val list outcome \<times> state" where
  "evaluate_args ev [] st = (Done [], st)"
| "evaluate_args ev (arg # rest) st =
     eval_bind (ev arg st)
       (\<lambda>v st1. eval_bind (evaluate_args ev rest st1) (\<lambda>vs st2. (Done (v # vs), st2)))"

text \<open>\<^verbatim>\<open>for (const e of doExpr.do) { result = evaluate(e, env); }\<close>\<close>

fun evaluate_do :: "(json \<Rightarrow> state \<Rightarrow> val outcome \<times> state) \<Rightarrow> json list \<Rightarrow> val \<Rightarrow> state \<Rightarrow> val outcome \<times> state" where
  "evaluate_do ev [] result st = (Done result, st)"
| "evaluate_do ev (e # rest) result st =
     eval_bind (ev e st) (\<lambda>v st1. evaluate_do ev rest v st1)"

text \<open>
  The cases of \<open>evaluate\<close>, one definition for each \<^verbatim>\<open>// Handle ...\<close> block of the
  source, in the source's order. \<open>ev\<close> is \<^verbatim>\<open>evaluate\<close> for the nested calls.
\<close>

definition handle_ref :: "json \<Rightarrow> state \<Rightarrow> val outcome \<times> state" where
  "handle_ref expr st =
     (case own expr ''ref'' of
        Some (JStr name) \<Rightarrow> (getVar (cur_env st) name, st)
      | _ \<Rightarrow> (Unmodelled, st))"

definition handle_let :: "(json \<Rightarrow> state \<Rightarrow> val outcome \<times> state) \<Rightarrow> json \<Rightarrow> state \<Rightarrow> val outcome \<times> state" where
  "handle_let ev expr st =
     (case own expr ''let'' of
        None \<Rightarrow> (Unmodelled, st)
      | Some letFields \<Rightarrow>
          if letFields = JNull then (Throw TypeError, st)
          else
            eval_bind (evaluate_opt ev (own letFields ''value'') st)
              (\<lambda>evaluatedValue st1.
                 case own letFields ''name'' of
                   Some (JStr name) \<Rightarrow>
                     (Done evaluatedValue, st1\<lparr>cur_env := setVar (cur_env st1) name evaluatedValue\<rparr>)
                 | _ \<Rightarrow> (Unmodelled, st1)))"

text \<open>
  A do block. \<^verbatim>\<open>for ... of\<close> over a string yields its characters, each a literal; any
  other non-array is not iterable.
\<close>

definition handle_do :: "(json \<Rightarrow> state \<Rightarrow> val outcome \<times> state) \<Rightarrow> json \<Rightarrow> state \<Rightarrow> val outcome \<times> state" where
  "handle_do ev expr st =
     (case own expr ''do'' of
        Some (JArr body) \<Rightarrow> evaluate_do ev body VNull st
      | Some (JStr s) \<Rightarrow> (Done (if s = [] then VNull else VStr [last s]), st)
      | _ \<Rightarrow> (Throw TypeError, st))"

definition handle_if :: "(json \<Rightarrow> state \<Rightarrow> val outcome \<times> state) \<Rightarrow> json \<Rightarrow> state \<Rightarrow> val outcome \<times> state" where
  "handle_if ev expr st =
     (case own expr ''if'' of
        None \<Rightarrow> (Unmodelled, st)
      | Some ifFields \<Rightarrow>
          if ifFields = JNull then (Throw TypeError, st)
          else
            eval_bind (evaluate_opt ev (own ifFields ''condition'') st)
              (\<lambda>condResult st1.
                 if truthy condResult
                 then evaluate_branch ev (own ifFields ''true'') st1
                 else evaluate_branch ev (own ifFields ''false'') st1))"

definition handle_function :: "json \<Rightarrow> state \<Rightarrow> val outcome \<times> state" where
  "handle_function expr st =
     (case own expr ''function'' of
        None \<Rightarrow> (Unmodelled, st)
      | Some funcDef \<Rightarrow>
          if funcDef = JNull then (Throw TypeError, st)
          else
            (case own funcDef ''name'' of
               Some (JStr name) \<Rightarrow>
                 (Done VNull,
                  st\<lparr>cur_env := defineFunction (cur_env st) name
                      (UserFunction (own funcDef ''params'') (own funcDef ''body''))\<rparr>)
             | _ \<Rightarrow> (Unmodelled, st)))"

text \<open>
  The function found, applied to the evaluated arguments: a builtin is called directly;
  a user function gets a new frame on top of the environment of the call, in which its
  body is evaluated.
\<close>

definition apply_function ::
  "host \<Rightarrow> (json \<Rightarrow> state \<Rightarrow> val outcome \<times> state) \<Rightarrow> string \<Rightarrow> func \<Rightarrow> val list \<Rightarrow> state \<Rightarrow> val outcome \<times> state" where
  "apply_function H ev funcName func evaluatedArgs st =
     (case func of
        Builtin b \<Rightarrow>
          (case call_builtin H b evaluatedArgs (console st) of
             (result, out) \<Rightarrow> (Done result, st\<lparr>console := out\<rparr>))
      | UserFunction params body \<Rightarrow>
          eval_bind (local_env funcName params evaluatedArgs (cur_env st), st)
            (\<lambda>localEnv st1.
               case evaluate_opt ev body (st1\<lparr>cur_env := localEnv\<rparr>) of
                 (result, st2) \<Rightarrow>
                   (result, st2\<lparr>cur_env := caller_env (cur_env st2) (cur_env st1)\<rparr>)))"

text \<open>
  A call: the first key is the function's name and its value the argument list. The
  function is looked up before the arguments are evaluated. For an object without keys
  the name is \<^verbatim>\<open>undefined\<close>: no function is ever stored under that key (the names
  \<open>handle_function\<close> stores are strings), so \<^verbatim>\<open>getFunction(undefined)\<close> walks the whole
  chain and throws \<^verbatim>\<open>Undefined function: undefined\<close>.
\<close>

definition handle_call ::
  "host \<Rightarrow> (json \<Rightarrow> state \<Rightarrow> val outcome \<times> state) \<Rightarrow> json \<Rightarrow> state \<Rightarrow> val outcome \<times> state" where
  "handle_call H ev expr st =
     (case entries expr of
        [] \<Rightarrow> (Throw (UndefinedFunction ''undefined''), st)
      | (funcName, args) # others \<Rightarrow>
          eval_bind (getFunction (cur_env st) funcName, st)
            (\<lambda>func st0.
               eval_bind (map_receiver args, st0)
                 (\<lambda>argExprs st0.
                    eval_bind (evaluate_args ev argExprs st0)
                      (\<lambda>evaluatedArgs st1. apply_function H ev funcName func evaluatedArgs st1))))"

text \<open>
  \<open>evaluate\<close>. User functions may recurse without bound, so the model takes a recursion
  budget: a call of \<open>evaluate\<close> with budget \<open>Suc n\<close> makes its nested calls with budget
  \<open>n\<close>, and \<open>OutOfFuel\<close> is the answer when none is left.
\<close>

primrec evaluate :: "host \<Rightarrow> nat \<Rightarrow> json \<Rightarrow> state \<Rightarrow> val outcome \<times> state" where
  "evaluate H 0 = (\<lambda>expr st. (OutOfFuel, st))"
| "evaluate H (Suc n) = (\<lambda>expr st.
     if is_primitive expr then (Done (literal_val expr), st)
     else if has_key expr ''ref'' then handle_ref expr st
     else if has_key expr ''let'' then handle_let (evaluate H n) expr st
     else if has_key expr ''do'' then handle_do (evaluate H n) expr st
     else if has_key expr ''if'' then handle_if (evaluate H n) expr st
     else if has_key expr ''function'' then handle_function expr st
     else if has_key expr ''macro'' then (Throw MacroNotImplemented, st)
     else if has_key expr ''import'' then (Throw ImportNotImplemented, st)
     else handle_call H (evaluate H n) expr st)"

section \<open>The program runner\<close>

record module_def =
  module_types :: "(string \<times> json) list option"
  module_exports :: "json list"

text \<open>
  \<^verbatim>\<open>Program\<close>. The optional fields are \<open>None\<close> when absent. The source also tests
  \<^verbatim>\<open>!program.program\<close>, so that field is optional here as well.
\<close>

record Program =
  jexl_version :: string
  program_name :: string
  program_types :: "(string \<times> json) list option"
  program_modules :: "(string \<times> module_def) list option"
  program_body :: "json list option"

text \<open>
  \<open>validateJsonSchema\<close>: the value has to be an object, and the schema library
  has to accept it (an exception of the library counts as a rejection).
\<close>

fun validateJsonSchema :: "host \<Rightarrow> json \<Rightarrow> bool" where
  "validateJsonSchema H (JObj kvs) = ajv_validateSchema H (JObj kvs)"
| "validateJsonSchema H other = False"

definition validateProgramTypes :: "host \<Rightarrow> Program \<Rightarrow> bool" where
  "validateProgramTypes H p =
     ((case program_types p of
         None \<Rightarrow> True
       | Some ts \<Rightarrow> list_all (validateJsonSchema H) (map snd ts)) \<and>
      (case program_modules p of
         None \<Rightarrow> True
       | Some ms \<Rightarrow>
           list_all (\<lambda>m. case module_types (snd m) of
                             None \<Rightarrow> True
                           | Some ts \<Rightarrow> list_all (validateJsonSchema H) (map snd ts)) ms))"

text \<open>\<^verbatim>\<open>for (const expr of program.program) { evaluate(expr, env); }\<close>\<close>

fun run_all :: "(json \<Rightarrow> state \<Rightarrow> val outcome \<times> state) \<Rightarrow> json list \<Rightarrow> state \<Rightarrow> unit outcome \<times> state" where
  "run_all ev [] st = (Done (), st)"
| "run_all ev (expr # rest) st = eval_bind (ev expr st) (\<lambda>v st1. run_all ev rest st1)"

text \<open>
  \<open>runProgram\<close> returns nothing; what can be observed of a run is whether it threw and
  what it wrote to the console.
\<close>

definition runProgram :: "host \<Rightarrow> nat \<Rightarrow> Program \<Rightarrow> unit outcome \<times> val list list" where
  "runProgram H fuel p =
     (if \<not> validateProgramTypes H p then (Throw InvalidProgramTypes, [])
      else
        (case program_body p of
           None \<Rightarrow> (Throw NoProgram, [])
         | Some exprs \<Rightarrow>
             (case run_all (evaluate H fuel) exprs \<lparr>cur_env = createGlobalEnv, console = []\<rparr> of
                (r, st) \<Rightarrow> (r, console st))))"

section \<open>Inputs used in the statements below\<close>

text \<open>
  The macro \<^verbatim>\<open>unless(condition, body)\<close> with body
  \<^verbatim>\<open>{if: {condition: {ref: "condition"}, false: {ref: "body"}}}\<close>, and the invocation
  \<^verbatim>\<open>{unless: [{equals: [1, 2]}, {print: ["x"]}]}\<close>.
\<close>

definition unless_macros :: "string \<rightharpoonup> macro_def" where
  "unless_macros =
     [''unless'' \<mapsto>
        \<lparr>macro_name = ''unless'',
         macro_params = [PName ''condition'', PName ''body''],
         macro_body =
           JObj [(''if'', JObj [(''condition'', JObj [(''ref'', JStr ''condition'')]),
                                (''false'', JObj [(''ref'', JStr ''body'')])])]\<rparr>]"

definition unless_invocation :: json where
  "unless_invocation =
     JObj [(''unless'', JArr [JObj [(''equals'', JArr [JNum (Finite 1), JNum (Finite 2)])],
                              JObj [(''print'', JArr [JStr ''x''])]])]"

text \<open>Whether a key occurs on any object anywhere in a tree.\<close>

fun key_occurs :: "string \<Rightarrow> json \<Rightarrow> bool"
and key_occurs_array :: "string \<Rightarrow> json list \<Rightarrow> bool"
and key_occurs_entries :: "string \<Rightarrow> (string \<times> json) list \<Rightarrow> bool"
where
  "key_occurs k (JObj kvs) = key_occurs_entries k kvs"
| "key_occurs k (JArr xs) = key_occurs_array k xs"
| "key_occurs k JNull = False"
| "key_occurs k (JBool v) = False"
| "key_occurs k (JNum v) = False"
| "key_occurs k (JStr v) = False"
| "key_occurs_array k [] = False"
| "key_occurs_array k (x # xs) = (key_occurs k x \<or> key_occurs_array k xs)"
| "key_occurs_entries k [] = False"
| "key_occurs_entries k ((k', v) # kvs) = (k' = k \<or> key_occurs k v \<or> key_occurs_entries k kvs)"

text \<open>A macro \<^verbatim>\<open>loop()\<close> whose body is \<^verbatim>\<open>{loop: []}\<close>, an invocation of itself.\<close>

definition loop_macros :: "string \<rightharpoonup> macro_def" where
  "loop_macros =
     [''loop'' \<mapsto> \<lparr>macro_name = ''loop'', macro_params = [], macro_body = JObj [(''loop'', JArr [])]\<rparr>]"

text \<open>
  A host for running examples that never reach the host's operations (no arithmetic, no
  string conversion): its answers there are placeholders. Its schema library accepts
  every object.
\<close>

definition stub_host :: host where
  "stub_host = \<lparr>arith = (\<lambda>b x y. VNum NaN), to_string = (\<lambda>v. []), ajv_validateSchema = (\<lambda>s. True)\<rparr>"

text \<open>The state in which \<open>runProgram\<close> starts evaluating.\<close>

definition global_state :: state where
  "global_state = \<lparr>cur_env = createGlobalEnv, console = []\<rparr>"

text \<open>
  Structural equality of values, in the words of the specification: two values are equal
  when they have the same shape and the same contents, whatever objects hold them.
\<close>

fun erase_identity :: "val \<Rightarrow> val"
and erase_identity_entries :: "(string \<times> val) list \<Rightarrow> (string \<times> val) list"
where
  "erase_identity (VArr i xs) = VArr 0 (map erase_identity xs)"
| "erase_identity (VObj i kvs) = VObj 0 (erase_identity_entries kvs)"
| "erase_identity VUndef = VUndef"
| "erase_identity VNull = VNull"
| "erase_identity (VBool b) = VBool b"
| "erase_identity (VNum x) = VNum x"
| "erase_identity (VStr s) = VStr s"
| "erase_identity_entries [] = []"
| "erase_identity_entries ((k, v) # kvs) = (k, erase_identity v) # erase_identity_entries kvs"

definition structurally_equal :: "val \<Rightarrow> val \<Rightarrow> bool" where
  "structurally_equal a b = (erase_identity a = erase_identity b)"

text \<open>The two zeros of JavaScript, as values.\<close>

fun is_zero :: "val \<Rightarrow> bool" where
  "is_zero (VNum (Finite q)) = (q = 0)"
| "is_zero (VNum NegZero) = True"
| "is_zero v = False"

text \<open>
  The global environment in which the host has bound \<^verbatim>\<open>xs\<close> and \<^verbatim>\<open>ys\<close> to two arrays
  \<^verbatim>\<open>[1]\<close> created separately, and the call \<^verbatim>\<open>{equals: [{ref: "xs"}, {ref: "ys"}]}\<close>.
\<close>

definition state_with_arrays :: state where
  "state_with_arrays =
     \<lparr>cur_env = setVar (setVar createGlobalEnv ''xs'' (VArr 0 [VNum (Finite 1)]))
                         ''ys'' (VArr 1 [VNum (Finite 1)]),
      console = []\<rparr>"

definition equals_xs_ys :: json where
  "equals_xs_ys = JObj [(''equals'', JArr [JObj [(''ref'', JStr ''xs'')], JObj [(''ref'', JStr ''ys'')]])]"

fun is_object :: "val \<Rightarrow> bool" where
  "is_object (VArr i xs) = True"
| "is_object (VObj i kvs) = True"
| "is_object v = False"

text \<open>
  Which block of \<open>evaluate\<close> an expression reaches: the \<^verbatim>\<open>in\<close> tests are made in the
  order ref, let, do, if, function, macro, import, and what passes them all is a call.
\<close>

definition reaches_let :: "json \<Rightarrow> bool" where
  "reaches_let expr = (\<not> is_primitive expr \<and> \<not> has_key expr ''ref'' \<and> has_key expr ''let'')"

definition reaches_if :: "json \<Rightarrow> bool" where
  "reaches_if expr =
     (\<not> is_primitive expr \<and> \<not> has_key expr ''ref'' \<and> \<not> has_key expr ''let'' \<and> \<not> has_key expr ''do''
      \<and> has_key expr ''if'')"

definition reserved_keys :: "string list" where
  "reserved_keys = [''ref'', ''let'', ''do'', ''if'', ''function'', ''macro'', ''import'']"

definition reaches_call :: "json \<Rightarrow> bool" where
  "reaches_call expr = (\<not> is_primitive expr \<and> list_all (\<lambda>k. \<not> has_key expr k) reserved_keys)"

text \<open>\<^verbatim>\<open>{if: {condition: 0, true: "a", false: "b"}}\<close>\<close>

definition if_zero :: json where
  "if_zero =
     JObj [(''if'', JObj [(''condition'', JNum (Finite 0)), (''true'', JStr ''a''), (''false'', JStr ''b'')])]"

text \<open>\<^verbatim>\<open>{if: {condition: "", true: "a"}}\<close>\<close>

definition if_empty_string :: json where
  "if_empty_string = JObj [(''if'', JObj [(''condition'', JStr []), (''true'', JStr ''a'')])]"

text \<open>\<^verbatim>\<open>{if: {condition: true, true: 0, false: "b"}}\<close>\<close>

definition if_true_then_zero :: json where
  "if_true_then_zero =
     JObj [(''if'', JObj [(''condition'', JBool True), (''true'', JNum (Finite 0)), (''false'', JStr ''b'')])]"

text \<open>
  The global environment with a user function \<^verbatim>\<open>f(a, b)\<close> whose body is
  \<^verbatim>\<open>{ref: "a"}\<close>, as \<^verbatim>\<open>{function: {name: "f", params: ["a", "b"], body: {ref: "a"}}}\<close>
  leaves it.
\<close>

definition state_with_f :: state where
  "state_with_f =
     \<lparr>cur_env = defineFunction createGlobalEnv ''f''
                  (UserFunction (Some (JArr [JStr ''a'', JStr ''b''])) (Some (JObj [(''ref'', JStr ''a'')]))),
      console = []\<rparr>"

text \<open>\<^verbatim>\<open>{f: [5]}\<close>, \<^verbatim>\<open>{equals: [5]}\<close> and \<^verbatim>\<open>{f: [{ref: "nope"}]}\<close>\<close>

definition call_f_one :: json where
  "call_f_one = JObj [(''f'', JArr [JNum (Finite 5)])]"

definition call_equals_one :: json where
  "call_equals_one = JObj [(''equals'', JArr [JNum (Finite 5)])]"

definition call_f_unbound :: json where
  "call_f_unbound = JObj [(''f'', JArr [JObj [(''ref'', JStr ''nope'')]])]"

text \<open>
  The name a parameter entry declares: the entry itself when it is a bare name, the key
  of a \<^verbatim>\<open>{name: type}\<close> record, the first component of a \<^verbatim>\<open>[name, type]\<close> pair (the
  form the interface \<^verbatim>\<open>UserFunction\<close> declares). \<open>names_extracted\<close> holds of a parameter
  list and a list of names when the destructuring of every entry yields the name the
  entry declares.
\<close>

fun declared_name :: "json \<Rightarrow> string option" where
  "declared_name (JStr s) = Some s"
| "declared_name (JArr (JStr name # rest)) = Some name"
| "declared_name (JObj [(k, v)]) = Some k"
| "declared_name v = None"

definition names_extracted :: "json list \<Rightarrow> string list \<Rightarrow> bool" where
  "names_extracted ps names =
     list_all2 (\<lambda>p name. declared_name p = Some name \<and> param_key p = Done name) ps names"

text \<open>
  The environment of a chain in which \<open>getFunction\<close> finds a name: the scope the
  function was defined in.
\<close>

fun defining_scope :: "Environment \<Rightarrow> string \<Rightarrow> Environment option" where
  "defining_scope (Environment vs fs p) name =
     (case fs name of
        Some fn \<Rightarrow> Some (Environment vs fs p)
      | None \<Rightarrow> (case p of Some up \<Rightarrow> defining_scope up name | None \<Rightarrow> None))"

text \<open>
  The global environment with a function \<^verbatim>\<open>f()\<close> whose body is \<^verbatim>\<open>{ref: "y"}\<close>, and a
  frame on top of it that binds \<^verbatim>\<open>y\<close> to 5, such as a call \<^verbatim>\<open>g(5)\<close> of a function
  \<^verbatim>\<open>g(y)\<close> creates.
\<close>

definition root_with_f :: Environment where
  "root_with_f =
     defineFunction createGlobalEnv ''f'' (UserFunction (Some (JArr [])) (Some (JObj [(''ref'', JStr ''y'')])))"

definition call_site :: Environment where
  "call_site = Environment [''y'' \<mapsto> VNum (Finite 5)] Map.empty (Some root_with_f)"

text \<open>
  The global environment with a function \<^verbatim>\<open>g(x, y)\<close> whose body is \<^verbatim>\<open>{ref: "y"}\<close>, as
  \<^verbatim>\<open>{function: {name: "g", params: ["x", "y"], body: {ref: "y"}}}\<close> leaves it, and the call
  \<^verbatim>\<open>{g: [1, 2]}\<close>.
\<close>

definition state_with_g :: state where
  "state_with_g =
     \<lparr>cur_env = defineFunction createGlobalEnv ''g''
                  (UserFunction (Some (JArr [JStr ''x'', JStr ''y''])) (Some (JObj [(''ref'', JStr ''y'')]))),
      console = []\<rparr>"

definition call_g :: json where
  "call_g = JObj [(''g'', JArr [JNum (Finite 1), JNum (Finite 2)])]"

text \<open>
  A frame without bindings whose parent binds \<^verbatim>\<open>x\<close> to 1, and
  \<^verbatim>\<open>{let: {name: "x", value: 2}}\<close>.
\<close>

definition outer_frame :: Environment where
  "outer_frame = Environment [''x'' \<mapsto> VNum (Finite 1)] Map.empty None"

definition inner_state :: state where
  "inner_state = \<lparr>cur_env = Environment Map.empty Map.empty (Some outer_frame), console = []\<rparr>"

definition let_x_two :: json where
  "let_x_two = JObj [(''let'', JObj [(''name'', JStr ''x''), (''value'', JNum (Finite 2))])]"

text \<open>An evaluator that leaves the parent link of the environment it is handed as it was.\<close>

definition keeps_parent :: "(json \<Rightarrow> state \<Rightarrow> val outcome \<times> state) \<Rightarrow> bool" where
  "keeps_parent ev = (\<forall>e st. parent (cur_env (snd (ev e st))) = parent (cur_env st))"

text \<open>
  The runner as section 4.6 of the specification words it, to be compared with
  \<open>runProgram\<close>: after the validation, the macro table is collected from the top-level
  \<^verbatim>\<open>{macro: {name, params, body}}\<close> entries, every top-level expression is expanded with
  it, and the expanded sequence is evaluated in order in the root environment.
\<close>

fun param_of_json :: "json \<Rightarrow> param option" where
  "param_of_json (JStr s) = Some (PName s)"
| "param_of_json (JObj [(k, JStr t)]) = Some (PTyped k t)"
| "param_of_json v = None"

definition macro_entry :: "json \<Rightarrow> (string \<times> macro_def) option" where
  "macro_entry expr =
     (case own expr ''macro'' of
        Some m \<Rightarrow>
          (case (own m ''name'', own m ''params'', own m ''body'') of
             (Some (JStr name), Some (JArr ps), Some body) \<Rightarrow>
               Some (name, \<lparr>macro_name = name,
                            macro_params = List.map_filter param_of_json ps,
                            macro_body = body\<rparr>)
           | _ \<Rightarrow> None)
      | None \<Rightarrow> None)"

definition collect_macros :: "json list \<Rightarrow> (string \<rightharpoonup> macro_def)" where
  "collect_macros exprs = map_of (List.map_filter macro_entry exprs)"

definition runProgram_spec :: "host \<Rightarrow> nat \<Rightarrow> Program \<Rightarrow> unit outcome \<times> val list list" where
  "runProgram_spec H fuel p =
     (if \<not> validateProgramTypes H p then (Throw InvalidProgramTypes, [])
      else
        (case program_body p of
           None \<Rightarrow> (Throw NoProgram, [])
         | Some exprs \<Rightarrow>
             (case expand_array fuel exprs (collect_macros exprs) of
                Done expanded \<Rightarrow>
                  (case run_all (evaluate H fuel) expanded global_state of
                     (r, st) \<Rightarrow> (r, console st))
              | Throw e \<Rightarrow> (Throw e, [])
              | OutOfFuel \<Rightarrow> (OutOfFuel, [])
              | Unmodelled \<Rightarrow> (Unmodelled, []))))"

text \<open>
  The definition of the macro \<open>unless\<close> as a top-level entry, a program that invokes it
  (\<^verbatim>\<open>{unless: [false, {print: ["x"]}]}\<close>) and then defines it, a program that prints,
  defines the macro and prints again, and a program whose declared type is not an object.
\<close>

definition unless_definition :: json where
  "unless_definition =
     JObj [(''macro'',
            JObj [(''name'', JStr ''unless''),
                  (''params'', JArr [JStr ''condition'', JStr ''body'']),
                  (''body'', JObj [(''if'', JObj [(''condition'', JObj [(''ref'', JStr ''condition'')]),
                                                 (''false'', JObj [(''ref'', JStr ''body'')])])])])]"

definition use_before_definition :: Program where
  "use_before_definition =
     \<lparr>jexl_version = ''v0.1'', program_name = ''macros'', program_types = None, program_modules = None,
      program_body = Some [JObj [(''unless'', JArr [JBool False, JObj [(''print'', JArr [JStr ''x''])]])],
                           unless_definition]\<rparr>"

definition print_macro_print :: Program where
  "print_macro_print =
     \<lparr>jexl_version = ''v0.1'', program_name = ''macros'', program_types = None, program_modules = None,
      program_body = Some [JObj [(''print'', JArr [JStr ''x''])], unless_definition,
                           JObj [(''print'', JArr [JStr ''y''])]]\<rparr>"

definition bad_types_program :: Program where
  "bad_types_program =
     \<lparr>jexl_version = ''v0.1'', program_name = ''invalid_schema'',
      program_types = Some [(''Invalid'', JNum (Finite 123))], program_modules = None,
      program_body = Some [JObj [(''print'', JArr [JStr ''x''])]]\<rparr>"

definition reaches_macro :: "json \<Rightarrow> bool" where
  "reaches_macro expr =
     (\<not> is_primitive expr \<and> \<not> has_key expr ''ref'' \<and> \<not> has_key expr ''let'' \<and> \<not> has_key expr ''do''
      \<and> \<not> has_key expr ''if'' \<and> \<not> has_key expr ''function'' \<and> has_key expr ''macro'')"

text \<open>
  Trees that contain no macro invocation and in which an array is never the expression
  itself nor an element of an array: arrays occur only as the value of a key.
\<close>

fun plain :: "(string \<rightharpoonup> macro_def) \<Rightarrow> json \<Rightarrow> bool"
and plain_value :: "(string \<rightharpoonup> macro_def) \<Rightarrow> json \<Rightarrow> bool"
and plain_array :: "(string \<rightharpoonup> macro_def) \<Rightarrow> json list \<Rightarrow> bool"
and plain_entries :: "(string \<rightharpoonup> macro_def) \<Rightarrow> (string \<times> json) list \<Rightarrow> bool"
where
  "plain m (JObj kvs) = (macro_invocation (JObj kvs) m = None \<and> plain_entries m kvs)"
| "plain m (JArr xs) = False"
| "plain m JNull = True"
| "plain m (JBool v) = True"
| "plain m (JNum v) = True"
| "plain m (JStr v) = True"
| "plain_value m (JArr xs) = plain_array m xs"
| "plain_value m (JObj kvs) = plain m (JObj kvs)"
| "plain_value m JNull = True"
| "plain_value m (JBool v) = True"
| "plain_value m (JNum v) = True"
| "plain_value m (JStr v) = True"
| "plain_array m [] = True"
| "plain_array m (x # xs) = (plain m x \<and> plain_array m xs)"
| "plain_entries m [] = True"
| "plain_entries m ((k, v) # kvs) = (plain_value m v \<and> plain_entries m kvs)"

text \<open>
  An evaluator that gives every answer of another one, where that one does not run out of
  budget.
\<close>

definition extends :: "(json \<Rightarrow> state \<Rightarrow> val outcome \<times> state) \<Rightarrow> (json \<Rightarrow> state \<Rightarrow> val outcome \<times> state) \<Rightarrow> bool" where
  "extends ev ev' = (\<forall>e st r st'. ev e st = (r, st') \<and> r \<noteq> OutOfFuel \<longrightarrow> ev' e st = (r, st'))"

section \<open>Properties of the macro expander\<close>

lemma outcome_bind_Done:
  "outcome_bind m f = Done r \<longleftrightarrow> (\<exists>x. m = Done x \<and> f x = Done r)"
  by (cases m) auto

text \<open>
  The recursion budget only decides whether an answer is reached, not which: an expansion
  that finishes within a budget finishes with the same tree within any larger one. So
  \<open>OutOfFuel\<close> for every budget means that the source's recursion never returns.
\<close>

lemma expand_fuel_Suc:
  "expand n e m = Done r \<Longrightarrow> expand (Suc n) e m = Done r"
  "expand_value n e m = Done r \<Longrightarrow> expand_value (Suc n) e m = Done r"
  "expand_array n es m = Done rs \<Longrightarrow> expand_array (Suc n) es m = Done rs"
  "expand_entries n kvs m = Done rkvs \<Longrightarrow> expand_entries (Suc n) kvs m = Done rkvs"
proof (induction n e m and n e m and n es m and n kvs m
       arbitrary: r and r and rs and rkvs
       rule: expand_expand_value_expand_array_expand_entries.induct)
  case (2 n expr macros)
  have run: "expand (Suc n) expr macros = Done r" using "2.prems" .
  show ?case
    using run "2.IH"
    unfolding expand.simps(2)[of n expr macros] expand.simps(2)[of "Suc n" expr macros]
    by (auto split: if_splits option.splits simp: outcome_bind_Done simp del: expand.simps)
qed (auto simp: outcome_bind_Done)

text \<open>
  An invocation is replaced by the substituted body, and that is expanded again without
  any condition.
\<close>

lemma expand_reexpands_substituted_body:
  "macros name = Some md \<Longrightarrow> bind_params (macro_params md) 0 args Map.empty = Done b
     \<Longrightarrow> expand (Suc n) (JObj [(name, args)]) macros = expand n (substitute (macro_body md) b) macros"
  by simp

text \<open>
  Expansion gives back unchanged every tree without macro invocation in which arrays occur
  only as the value of a key.
\<close>

lemma expand_fuel_add:
  "expand n e m = Done r \<Longrightarrow> expand (n + k) e m = Done r"
  "expand_value n e m = Done r \<Longrightarrow> expand_value (n + k) e m = Done r"
  "expand_array n es m = Done rs \<Longrightarrow> expand_array (n + k) es m = Done rs"
  "expand_entries n kvs m = Done rkvs \<Longrightarrow> expand_entries (n + k) kvs m = Done rkvs"
  by (induction k) (simp_all del: expand.simps add: expand_fuel_Suc)

lemma expand_plain:
  "plain m e \<Longrightarrow> \<exists>n. expand n e m = Done e"
  "plain_value m v \<Longrightarrow> \<exists>n. expand_value n v m = Done v"
  "plain_array m es \<Longrightarrow> \<exists>n. expand_array n es m = Done es"
  "plain_entries m kvs \<Longrightarrow> \<exists>n. expand_entries n kvs m = Done kvs"
proof (induction m e and m v and m es and m kvs rule: plain_plain_value_plain_array_plain_entries.induct)
  case (1 m kvs)
  then obtain n where "expand_entries n kvs m = Done kvs" by auto
  with 1 have "expand (Suc n) (JObj kvs) m = Done (JObj kvs)"
    by (simp del: macro_invocation.simps)
  then show ?case by blast
next
  case (2 m xs)
  then show ?case by simp
next
  case (7 m xs)
  then obtain n where "expand_array n xs m = Done xs" by auto
  then have "expand_value n (JArr xs) m = Done (JArr xs)" by simp
  then show ?case by blast
next
  case (14 m x xs)
  then obtain n1 n2 where a: "expand n1 x m = Done x" and b: "expand_array n2 xs m = Done xs" by auto
  have "expand (n1 + n2) x m = Done x" using expand_fuel_add(1) [OF a] .
  moreover have "expand_array (n1 + n2) xs m = Done xs"
    using expand_fuel_add(3) [OF b, of n1] by (simp add: add.commute)
  ultimately have "expand_array (n1 + n2) (x # xs) m = Done (x # xs)" by (simp del: expand.simps)
  then show ?case by blast
next
  case (16 m k v kvs)
  then obtain n1 n2 where a: "expand_value n1 v m = Done v" and b: "expand_entries n2 kvs m = Done kvs" by auto
  have "expand_value (n1 + n2) v m = Done v" using expand_fuel_add(2) [OF a] .
  moreover have "expand_entries (n1 + n2) kvs m = Done kvs"
    using expand_fuel_add(4) [OF b, of n1] by (simp add: add.commute)
  ultimately have "expand_entries (n1 + n2) ((k, v) # kvs) m = Done ((k, v) # kvs)" by (simp del: expand.simps)
  then show ?case by blast
qed (auto intro: exI [of _ "Suc 0"])

text \<open>
  C7. With the macro \<open>unless\<close> in the map, the invocation
  \<^verbatim>\<open>{unless: [{equals: [1, 2]}, {print: ["x"]}]}\<close> expands (with any budget of at least 5
  nested calls) to an \<^verbatim>\<open>if\<close> whose condition is \<^verbatim>\<open>{equals: [1, 2]}\<close> and whose false
  branch is \<^verbatim>\<open>{print: ["x"]}\<close>: the two argument expressions appear as they were written,
  unevaluated, and the key \<^verbatim>\<open>unless\<close> occurs nowhere in the result.
\<close>

theorem unless_expands_to_if:
  "expand (5 + k) unless_invocation unless_macros =
     Done (JObj [(''if'', JObj [(''condition'', JObj [(''equals'', JArr [JNum (Finite 1), JNum (Finite 2)])]),
                               (''false'', JObj [(''print'', JArr [JStr ''x''])])])])
   \<and> \<not> key_occurs ''unless''
         (JObj [(''if'', JObj [(''condition'', JObj [(''equals'', JArr [JNum (Finite 1), JNum (Finite 2)])]),
                               (''false'', JObj [(''print'', JArr [JStr ''x''])])])])"
  by (simp add: unless_macros_def unless_invocation_def numeral_eq_Suc)

text \<open>
  C9. The expander has no depth limit: for the macro \<open>loop\<close>, whose body invokes \<open>loop\<close>,
  expanding the invocation \<^verbatim>\<open>{loop: []}\<close> exhausts every recursion budget, that is, the
  source's recursion does not terminate.
\<close>

theorem self_invoking_macro_never_finishes:
  "expand n (JObj [(''loop'', JArr [])]) loop_macros = OutOfFuel"
  by (induction n) (simp_all add: loop_macros_def)

text \<open>
  C6 (the code at the failing input). With an empty macro map, hence no invocation at all,
  the tree \<^verbatim>\<open>{foo: {bar: [[1]]}}\<close> does not come back unchanged: an array that is itself an
  element of an array is rebuilt as an object keyed by its indices, \<^verbatim>\<open>{"0": 1}\<close>.
\<close>

theorem expand_turns_nested_array_into_object:
  "expand (4 + k) (JObj [(''foo'', JObj [(''bar'', JArr [JArr [JNum (Finite 1)]])])]) Map.empty
     = Done (JObj [(''foo'', JObj [(''bar'', JArr [JObj [(''0'', JNum (Finite 1))]])])])"
  by (simp add: numeral_eq_Suc digit_char_def)


section \<open>Properties of the builtins\<close>

text \<open>
  C5 (as stated, refuted). Two arrays created separately, each holding the single element
  1, are structurally equal, and \<^verbatim>\<open>equals\<close> answers false for them, called directly or
  through the evaluator.
\<close>

theorem equals_false_on_equal_arrays:
  "call_builtin stub_host Equals [VArr 0 [VNum (Finite 1)], VArr 1 [VNum (Finite 1)]] []
     = (VBool False, [])
   \<and> structurally_equal (VArr 0 [VNum (Finite 1)]) (VArr 1 [VNum (Finite 1)])
   \<and> evaluate stub_host 2 equals_xs_ys state_with_arrays = (Done (VBool False), state_with_arrays)"
  by (simp add: structurally_equal_def argument_def equals_xs_ys_def state_with_arrays_def
        createGlobalEnv_def builtins_def numeral_eq_Suc has_key_def own_def handle_call_def
        handle_ref_def apply_function_def)

text \<open>
  C5 (amended). \<^verbatim>\<open>equals\<close> is JavaScript's strict equality and changes nothing: two
  arrays, or two objects, are equal exactly when they are the same object, whatever they
  contain; an array, an object and a value that is neither are never equal to one of
  another kind; two values that are not objects are equal exactly when neither is NaN and
  they are structurally equal or both are zeros. So NaN equals nothing, itself included,
  and negative zero equals zero.
\<close>

theorem equals_is_strict_equality:
  "call_builtin H Equals [a, b] out = (VBool (strict_equals a b), out)
   \<and> (strict_equals (VArr i xs) (VArr j ys) \<longleftrightarrow> i = j)
   \<and> (strict_equals (VObj i kvs) (VObj j kvs') \<longleftrightarrow> i = j)
   \<and> \<not> strict_equals (VArr i xs) (VObj j kvs)
   \<and> \<not> strict_equals (VObj i kvs) (VArr j xs)
   \<and> (is_object a \<noteq> is_object b \<longrightarrow> \<not> strict_equals a b)
   \<and> (\<not> is_object a \<and> \<not> is_object b \<longrightarrow>
        (strict_equals a b \<longleftrightarrow>
           a \<noteq> VNum NaN \<and> (structurally_equal a b \<or> (is_zero a \<and> is_zero b))))
   \<and> \<not> strict_equals (VNum NaN) b
   \<and> \<not> strict_equals a (VNum NaN)
   \<and> strict_equals (VNum NegZero) (VNum (Finite 0))
   \<and> strict_equals (VNum (Finite 0)) (VNum NegZero)
   \<and> strict_equals (VNum NegZero) (VNum NegZero)"
proof -
  have prim: "erase_identity v = v" if "\<not> is_object v" for v
    using that by (cases v) auto
  have nan_left: "\<not> strict_equals (VNum NaN) v" for v
    by (cases v) auto
  have nan_right: "\<not> strict_equals v (VNum NaN)" for v
  proof (cases v)
    case (VNum x)
    then show ?thesis by (cases x) auto
  qed auto
  have mixed: "\<not> strict_equals a b" if "is_object a \<noteq> is_object b"
    using that by (cases a; cases b) auto
  have plain: "strict_equals a b \<longleftrightarrow> a \<noteq> VNum NaN \<and> (a = b \<or> (is_zero a \<and> is_zero b))"
    if "\<not> is_object a" "\<not> is_object b"
  proof (cases a)
    case (VNum x)
    show ?thesis
    proof (cases b)
      case (VNum y)
      with \<open>a = VNum x\<close> show ?thesis by (cases x; cases y) auto
    qed (use \<open>a = VNum x\<close> in \<open>cases x; auto\<close>)+
  qed (use that in \<open>cases b; auto\<close>)+
  have call: "call_builtin H Equals [a, b] out = (VBool (strict_equals a b), out)"
    by (simp add: argument_def)
  from call nan_left nan_right mixed plain show ?thesis
    by (simp add: structurally_equal_def prim)
qed

theorem equals_is_strict_equality_witness:
  "\<not> is_object (VStr ''a'') \<and> strict_equals (VStr ''a'') (VStr ''a'')
   \<and> structurally_equal (VStr ''a'') (VStr ''a'')
   \<and> call_builtin stub_host Equals [VStr ''a'', VStr ''a''] [] = (VBool True, [])
   \<and> \<not> strict_equals (VArr 0 [VNum (Finite 1)]) (VArr 1 [VNum (Finite 1)])
   \<and> is_object (VArr 0 []) \<noteq> is_object (VStr ''a'') \<and> \<not> strict_equals (VArr 0 []) (VStr ''a'')
   \<and> \<not> is_object (VNum NaN) \<and> structurally_equal (VNum NaN) (VNum NaN)
   \<and> call_builtin stub_host Equals [VNum NaN, VNum NaN] [] = (VBool False, [])
   \<and> \<not> structurally_equal (VNum NegZero) (VNum (Finite 0))
   \<and> is_zero (VNum NegZero) \<and> is_zero (VNum (Finite 0))
   \<and> call_builtin stub_host Equals [VNum NegZero, VNum (Finite 0)] [] = (VBool True, [])"
proof -
  note strings = equals_is_strict_equality
          [of stub_host "VStr ''a''" "VStr ''a''" "[]" 0 "[VNum (Finite 1)]" 1 "[VNum (Finite 1)]"]
  note kinds = equals_is_strict_equality [of stub_host "VArr 0 []" "VStr ''a''" "[]"]
  note nans = equals_is_strict_equality [of stub_host "VNum NaN" "VNum NaN" "[]"]
  note zeros = equals_is_strict_equality [of stub_host "VNum NegZero" "VNum (Finite 0)" "[]"]
  have a: "strict_equals (VStr ''a'') (VStr ''a'')
           \<and> call_builtin stub_host Equals [VStr ''a'', VStr ''a''] [] = (VBool True, [])
           \<and> \<not> strict_equals (VArr 0 [VNum (Finite 1)]) (VArr 1 [VNum (Finite 1)])"
    using strings by (simp add: structurally_equal_def)
  have b: "\<not> strict_equals (VArr 0 []) (VStr ''a'')"
    using kinds by simp
  have c: "call_builtin stub_host Equals [VNum NaN, VNum NaN] [] = (VBool False, [])"
    using nans by (simp add: structurally_equal_def)
  have d: "call_builtin stub_host Equals [VNum NegZero, VNum (Finite 0)] [] = (VBool True, [])"
    using zeros by (simp add: structurally_equal_def)
  from a b c d show ?thesis by (simp add: structurally_equal_def)
qed

section \<open>Properties of the evaluator\<close>

text \<open>
  The recursion budget of \<open>evaluate\<close> only decides whether an answer is reached: an
  evaluation that ends within a budget, with a value or an error, ends in the same way and
  in the same state within any larger one.
\<close>

lemma extendsD: "extends ev ev' \<Longrightarrow> ev e st = (r, st') \<Longrightarrow> r \<noteq> OutOfFuel \<Longrightarrow> ev' e st = (r, st')"
  by (auto simp: extends_def)

lemma eval_bind_mono:
  fixes m m' :: "'a outcome \<times> state"
  assumes "eval_bind m f = (r, s)" and "r \<noteq> OutOfFuel"
    and "\<And>r1 s1. m = (r1, s1) \<Longrightarrow> r1 \<noteq> OutOfFuel \<Longrightarrow> m' = (r1, s1)"
    and "\<And>x s1. m = (Done x, s1) \<Longrightarrow> f x s1 = (r, s) \<Longrightarrow> f' x s1 = (r, s)"
  shows "eval_bind m' f' = (r, s)"
proof -
  obtain r1 s1 where m: "m = (r1, s1)" by (cases m)
  show ?thesis
  proof (cases r1)
    case (Done x)
    with m assms(1) have "f x s1 = (r, s)" by simp
    with assms(3) [OF m] assms(4) [of x s1] m Done show ?thesis by simp
  next
    case (Throw e)
    with m assms(1) assms(3) [OF m] show ?thesis by auto
  next
    case OutOfFuel
    with m assms(1,2) show ?thesis by simp
  next
    case Unmodelled
    with m assms(1) assms(3) [OF m] show ?thesis by auto
  qed
qed

lemma evaluate_opt_mono:
  "extends ev ev' \<Longrightarrow> evaluate_opt ev opt st = (r, st') \<Longrightarrow> r \<noteq> OutOfFuel
     \<Longrightarrow> evaluate_opt ev' opt st = (r, st')"
  by (cases opt) (auto dest: extendsD)

lemma evaluate_branch_mono:
  "extends ev ev' \<Longrightarrow> evaluate_branch ev opt st = (r, st') \<Longrightarrow> r \<noteq> OutOfFuel
     \<Longrightarrow> evaluate_branch ev' opt st = (r, st')"
  by (cases opt) (auto dest: extendsD split: if_splits)

lemma evaluate_args_mono:
  "extends ev ev' \<Longrightarrow> evaluate_args ev es st = (r, st') \<Longrightarrow> r \<noteq> OutOfFuel
     \<Longrightarrow> evaluate_args ev' es st = (r, st')"
proof (induction es arbitrary: st r st')
  case Nil
  then show ?case by simp
next
  case (Cons e es)
  show ?case
    unfolding evaluate_args.simps
  proof (rule eval_bind_mono [OF Cons.prems(2) [unfolded evaluate_args.simps] Cons.prems(3)])
    fix r1 s1 assume "ev e st = (r1, s1)" "r1 \<noteq> OutOfFuel"
    then show "ev' e st = (r1, s1)" using Cons.prems(1) by (rule extendsD [rotated])
  next
    fix x s1
    assume "eval_bind (evaluate_args ev es s1) (\<lambda>vs st2. (Done (x # vs), st2)) = (r, st')"
    then show "eval_bind (evaluate_args ev' es s1) (\<lambda>vs st2. (Done (x # vs), st2)) = (r, st')"
      by (rule eval_bind_mono [OF _ Cons.prems(3)]) (auto intro: Cons.IH [OF Cons.prems(1)])
  qed
qed

lemma evaluate_do_mono:
  "extends ev ev' \<Longrightarrow> evaluate_do ev es v st = (r, st') \<Longrightarrow> r \<noteq> OutOfFuel
     \<Longrightarrow> evaluate_do ev' es v st = (r, st')"
proof (induction es arbitrary: st v)
  case Nil
  then show ?case by simp
next
  case (Cons e es)
  show ?case
    unfolding evaluate_do.simps
  proof (rule eval_bind_mono [OF Cons.prems(2) [unfolded evaluate_do.simps] Cons.prems(3)])
    fix r1 s1 assume "ev e st = (r1, s1)" "r1 \<noteq> OutOfFuel"
    then show "ev' e st = (r1, s1)" using Cons.prems(1) by (rule extendsD [rotated])
  next
    fix x s1
    assume "evaluate_do ev es x s1 = (r, st')"
    then show "evaluate_do ev' es x s1 = (r, st')"
      using Cons.IH [OF Cons.prems(1) _ Cons.prems(3)] by simp
  qed
qed

lemma handle_let_mono:
  assumes "extends ev ev'" and "handle_let ev e st = (r, st')" and "r \<noteq> OutOfFuel"
  shows "handle_let ev' e st = (r, st')"
proof (cases "own e ''let''")
  case None
  with assms(2) show ?thesis by (simp add: handle_let_def)
next
  case (Some letFields)
  show ?thesis
  proof (cases "letFields = JNull")
    case True
    with Some assms(2) show ?thesis by (simp add: handle_let_def)
  next
    case False
    from assms(2) Some False
    have "eval_bind (evaluate_opt ev (own letFields ''value'') st)
              (\<lambda>evaluatedValue st1.
                 case own letFields ''name'' of
                   Some (JStr name) \<Rightarrow>
                     (Done evaluatedValue, st1\<lparr>cur_env := setVar (cur_env st1) name evaluatedValue\<rparr>)
                 | _ \<Rightarrow> (Unmodelled, st1)) = (r, st')"
      by (simp add: handle_let_def)
    then have "eval_bind (evaluate_opt ev' (own letFields ''value'') st)
              (\<lambda>evaluatedValue st1.
                 case own letFields ''name'' of
                   Some (JStr name) \<Rightarrow>
                     (Done evaluatedValue, st1\<lparr>cur_env := setVar (cur_env st1) name evaluatedValue\<rparr>)
                 | _ \<Rightarrow> (Unmodelled, st1)) = (r, st')"
      by (rule eval_bind_mono [OF _ assms(3)]) (auto intro: evaluate_opt_mono [OF assms(1)])
    with Some False show ?thesis by (simp add: handle_let_def)
  qed
qed

lemma handle_do_mono:
  assumes "extends ev ev'" and "handle_do ev e st = (r, st')" and "r \<noteq> OutOfFuel"
  shows "handle_do ev' e st = (r, st')"
  using assms(2) evaluate_do_mono [OF assms(1) _ assms(3)]
  by (auto simp: handle_do_def split: option.splits json.splits)

lemma handle_if_mono:
  assumes "extends ev ev'" and "handle_if ev e st = (r, st')" and "r \<noteq> OutOfFuel"
  shows "handle_if ev' e st = (r, st')"
proof (cases "own e ''if''")
  case None
  with assms(2) show ?thesis by (simp add: handle_if_def)
next
  case (Some ifFields)
  show ?thesis
  proof (cases "ifFields = JNull")
    case True
    with Some assms(2) show ?thesis by (simp add: handle_if_def)
  next
    case False
    from assms(2) Some False
    have "eval_bind (evaluate_opt ev (own ifFields ''condition'') st)
              (\<lambda>condResult st1.
                 if truthy condResult
                 then evaluate_branch ev (own ifFields ''true'') st1
                 else evaluate_branch ev (own ifFields ''false'') st1) = (r, st')"
      by (simp add: handle_if_def)
    then have "eval_bind (evaluate_opt ev' (own ifFields ''condition'') st)
              (\<lambda>condResult st1.
                 if truthy condResult
                 then evaluate_branch ev' (own ifFields ''true'') st1
                 else evaluate_branch ev' (own ifFields ''false'') st1) = (r, st')"
      by (rule eval_bind_mono [OF _ assms(3)])
         (auto intro: evaluate_opt_mono [OF assms(1)] evaluate_branch_mono [OF assms(1) _ assms(3)]
               split: if_splits)
    with Some False show ?thesis by (simp add: handle_if_def)
  qed
qed

lemma apply_function_mono:
  assumes "extends ev ev'" and "apply_function H ev f fn vs st = (r, st')" and "r \<noteq> OutOfFuel"
  shows "apply_function H ev' f fn vs st = (r, st')"
proof (cases fn)
  case (Builtin b)
  with assms(2) show ?thesis by (simp add: apply_function_def)
next
  case (UserFunction params body)
  from assms(2) UserFunction
  have "eval_bind (local_env f params vs (cur_env st), st)
            (\<lambda>localEnv st1.
               case evaluate_opt ev body (st1\<lparr>cur_env := localEnv\<rparr>) of
                 (result, st2) \<Rightarrow>
                   (result, st2\<lparr>cur_env := caller_env (cur_env st2) (cur_env st1)\<rparr>)) = (r, st')"
    by (simp add: apply_function_def)
  then have "eval_bind (local_env f params vs (cur_env st), st)
            (\<lambda>localEnv st1.
               case evaluate_opt ev' body (st1\<lparr>cur_env := localEnv\<rparr>) of
                 (result, st2) \<Rightarrow>
                   (result, st2\<lparr>cur_env := caller_env (cur_env st2) (cur_env st1)\<rparr>)) = (r, st')"
  proof (rule eval_bind_mono [OF _ assms(3)])
    fix x and s1 :: state
    assume run: "(case evaluate_opt ev body (s1\<lparr>cur_env := x\<rparr>) of
                   (result, st2) \<Rightarrow> (result, st2\<lparr>cur_env := caller_env (cur_env st2) (cur_env s1)\<rparr>)) = (r, st')"
    obtain r2 s2 where body: "evaluate_opt ev body (s1\<lparr>cur_env := x\<rparr>) = (r2, s2)"
      by (cases "evaluate_opt ev body (s1\<lparr>cur_env := x\<rparr>)")
    with run have "r2 = r" by simp
    with evaluate_opt_mono [OF assms(1) body] assms(3)
    have "evaluate_opt ev' body (s1\<lparr>cur_env := x\<rparr>) = (r2, s2)" by simp
    with run body
    show "(case evaluate_opt ev' body (s1\<lparr>cur_env := x\<rparr>) of
                   (result, st2) \<Rightarrow> (result, st2\<lparr>cur_env := caller_env (cur_env st2) (cur_env s1)\<rparr>)) = (r, st')"
      by simp
  qed simp
  with UserFunction show ?thesis by (simp add: apply_function_def)
qed

lemma handle_call_mono:
  assumes "extends ev ev'" and "handle_call H ev e st = (r, st')" and "r \<noteq> OutOfFuel"
  shows "handle_call H ev' e st = (r, st')"
proof (cases "entries e")
  case Nil
  with assms(2) show ?thesis by (simp add: handle_call_def)
next
  case (Cons kv others)
  obtain f args where kv: "kv = (f, args)" by (cases kv)
  from assms(2) Cons kv
  have "eval_bind (getFunction (cur_env st) f, st)
            (\<lambda>func st0.
               eval_bind (map_receiver args, st0)
                 (\<lambda>argExprs st0.
                    eval_bind (evaluate_args ev argExprs st0)
                      (\<lambda>evaluatedArgs st1. apply_function H ev f func evaluatedArgs st1))) = (r, st')"
    by (simp add: handle_call_def)
  then have "eval_bind (getFunction (cur_env st) f, st)
            (\<lambda>func st0.
               eval_bind (map_receiver args, st0)
                 (\<lambda>argExprs st0.
                    eval_bind (evaluate_args ev' argExprs st0)
                      (\<lambda>evaluatedArgs st1. apply_function H ev' f func evaluatedArgs st1))) = (r, st')"
    apply (rule eval_bind_mono [OF _ assms(3)], simp)
    apply (erule eval_bind_mono [OF _ assms(3)], simp)
    apply (erule eval_bind_mono [OF _ assms(3)])
     apply (erule (1) evaluate_args_mono [OF assms(1)])
    apply (erule apply_function_mono [OF assms(1) _ assms(3)])
    done
  with Cons kv show ?thesis by (simp add: handle_call_def)
qed

lemma evaluate_Suc:
  "evaluate H (Suc n) expr st =
     (if is_primitive expr then (Done (literal_val expr), st)
      else if has_key expr ''ref'' then handle_ref expr st
      else if has_key expr ''let'' then handle_let (evaluate H n) expr st
      else if has_key expr ''do'' then handle_do (evaluate H n) expr st
      else if has_key expr ''if'' then handle_if (evaluate H n) expr st
      else if has_key expr ''function'' then handle_function expr st
      else if has_key expr ''macro'' then (Throw MacroNotImplemented, st)
      else if has_key expr ''import'' then (Throw ImportNotImplemented, st)
      else handle_call H (evaluate H n) expr st)"
  by simp

lemma evaluate_extends_Suc: "extends (evaluate H n) (evaluate H (Suc n))"
proof (induction n)
  case 0
  show ?case by (simp add: extends_def)
next
  case (Suc n)
  show ?case
    unfolding extends_def
  proof (intro allI impI, elim conjE)
    fix e st r st'
    assume run: "evaluate H (Suc n) e st = (r, st')" and r: "r \<noteq> OutOfFuel"
    show "evaluate H (Suc (Suc n)) e st = (r, st')"
      using run [unfolded evaluate_Suc [of H n e st]]
      by (subst evaluate_Suc)
         (auto split: if_splits simp del: evaluate.simps
               intro: handle_let_mono [OF Suc _ r] handle_do_mono [OF Suc _ r]
                      handle_if_mono [OF Suc _ r] handle_call_mono [OF Suc _ r])
  qed
qed

lemma evaluate_fuel_mono:
  "evaluate H n e st = (r, st') \<Longrightarrow> r \<noteq> OutOfFuel \<Longrightarrow> evaluate H (n + k) e st = (r, st')"
proof (induction k)
  case 0
  then show ?case by simp
next
  case (Suc k)
  then have "evaluate H (n + k) e st = (r, st')" by simp
  from extendsD [OF evaluate_extends_Suc this Suc.prems(2)]
  show ?case by simp
qed

lemma truthy_iff:
  "truthy c \<longleftrightarrow> c \<notin> {VBool False, VNull, VUndef, VNum (Finite 0), VNum NegZero, VNum NaN, VStr []}"
proof (cases c)
  case (VNum x)
  then show ?thesis by (cases x) auto
qed auto

lemma own_JNull: "own JNull k = None"
  by (simp add: own_def)

lemma evaluate_if:
  "reaches_if expr \<Longrightarrow> evaluate H (Suc n) expr st = handle_if (evaluate H n) expr st"
  by (simp add: reaches_if_def)

text \<open>
  C2 (as stated, refuted). In the global environment,
  \<^verbatim>\<open>{if: {condition: 0, true: "a", false: "b"}}\<close> evaluates to \<^verbatim>\<open>"b"\<close>: the condition
  value 0 selects the else branch.
\<close>

theorem if_zero_takes_else_branch:
  "evaluate stub_host 2 if_zero global_state = (Done (VStr ''b''), global_state)"
  by (simp add: if_zero_def numeral_eq_Suc own_def has_key_def handle_if_def)

text \<open>
  C2 (amended). For every if expression whose condition evaluates to a value, the else
  branch is selected exactly when that value is false, null, undefined, 0, -0, NaN or the
  empty string; every other value (a non-empty string, a non-zero number, any array or
  object, the empty array included) selects the then branch.
\<close>

theorem if_branch_selected_by_truthiness:
  assumes "reaches_if expr"
    and "own expr ''if'' = Some ifFields"
    and "own ifFields ''condition'' = Some cond"
    and "evaluate H n cond st = (Done c, st1)"
  shows "evaluate H (Suc n) expr st =
           (if c \<in> {VBool False, VNull, VUndef, VNum (Finite 0), VNum NegZero, VNum NaN, VStr []}
            then evaluate_branch (evaluate H n) (own ifFields ''false'') st1
            else evaluate_branch (evaluate H n) (own ifFields ''true'') st1)"
proof -
  have nn: "ifFields \<noteq> JNull" using assms(3) by (auto simp: own_JNull)
  show ?thesis
    unfolding evaluate_if [OF assms(1)] handle_if_def
    using assms(2-4) nn by (simp add: truthy_iff del: truthy.simps)
qed

theorem if_branch_selected_by_truthiness_witness:
  "reaches_if if_empty_string
   \<and> own if_empty_string ''if'' = Some (JObj [(''condition'', JStr []), (''true'', JStr ''a'')])
   \<and> evaluate stub_host 1 (JStr []) global_state = (Done (VStr []), global_state)
   \<and> evaluate stub_host 2 if_empty_string global_state = (Done VNull, global_state)"
proof -
  let ?flds = "JObj [(''condition'', JStr []), (''true'', JStr ''a'')]"
  have h1: "reaches_if if_empty_string"
    by (simp add: reaches_if_def if_empty_string_def has_key_def own_def)
  have h2: "own if_empty_string ''if'' = Some ?flds"
    by (simp add: if_empty_string_def own_def)
  have h3: "own ?flds ''condition'' = Some (JStr [])" by (simp add: own_def)
  have h4: "evaluate stub_host (Suc 0) (JStr []) global_state = (Done (VStr []), global_state)"
    by simp
  have "evaluate stub_host (Suc (Suc 0)) if_empty_string global_state = (Done VNull, global_state)"
    using if_branch_selected_by_truthiness [OF h1 h2 h3 h4] by (simp add: own_def)
  with h1 h2 h4 show ?thesis by (simp add: numeral_2_eq_2)
qed

text \<open>
  C10. Whether a branch is there is decided by the truthiness of the branch's expression
  node: when the branch selected by the condition is the literal false, 0, the empty
  string or null, the if evaluates to null, which for the first three is not the value of
  that literal.
\<close>

theorem falsy_branch_node_yields_null:
  assumes "reaches_if expr"
    and "own expr ''if'' = Some ifFields"
    and "own ifFields ''condition'' = Some cond"
    and "evaluate H n cond st = (Done c, st1)"
    and "own ifFields (if truthy c then ''true'' else ''false'') = Some branch"
    and "branch \<in> {JBool False, JNum (Finite 0), JStr [], JNull}"
  shows "evaluate H (Suc n) expr st = (Done VNull, st1)
         \<and> (branch \<noteq> JNull \<longrightarrow> literal_val branch \<noteq> VNull)"
proof -
  have nn: "ifFields \<noteq> JNull" using assms(3) by (auto simp: own_JNull)
  have falsy: "\<not> truthy_node branch" using assms(6) by auto
  have lit: "branch \<noteq> JNull \<longrightarrow> literal_val branch \<noteq> VNull" using assms(6) by auto
  have "evaluate H (Suc n) expr st = (Done VNull, st1)"
    unfolding evaluate_if [OF assms(1)] handle_if_def
    using assms(2-5) nn falsy
    by (cases "truthy c") (simp_all del: truthy.simps truthy_node.simps)
  with lit show ?thesis by simp
qed

theorem falsy_branch_node_yields_null_witness:
  "reaches_if if_true_then_zero
   \<and> own if_true_then_zero ''if''
       = Some (JObj [(''condition'', JBool True), (''true'', JNum (Finite 0)), (''false'', JStr ''b'')])
   \<and> evaluate stub_host 1 (JBool True) global_state = (Done (VBool True), global_state)
   \<and> evaluate stub_host 2 if_true_then_zero global_state = (Done VNull, global_state)
   \<and> literal_val (JNum (Finite 0)) \<noteq> VNull"
proof -
  let ?flds = "JObj [(''condition'', JBool True), (''true'', JNum (Finite 0)), (''false'', JStr ''b'')]"
  have h1: "reaches_if if_true_then_zero"
    by (simp add: reaches_if_def if_true_then_zero_def has_key_def own_def)
  have h2: "own if_true_then_zero ''if'' = Some ?flds"
    by (simp add: if_true_then_zero_def own_def)
  have h3: "own ?flds ''condition'' = Some (JBool True)" by (simp add: own_def)
  have h4: "evaluate stub_host (Suc 0) (JBool True) global_state = (Done (VBool True), global_state)"
    by simp
  have h5: "own ?flds (if truthy (VBool True) then ''true'' else ''false'') = Some (JNum (Finite 0))"
    by (simp add: own_def)
  have h6: "JNum (Finite 0) \<in> {JBool False, JNum (Finite 0), JStr [], JNull}" by simp
  from falsy_branch_node_yields_null [OF h1 h2 h3 h4 h5 h6] h1 h2 h4
  show ?thesis by (simp add: numeral_2_eq_2)
qed

lemma eval_bind_Done:
  "eval_bind m f = (Done r, s) \<longleftrightarrow> (\<exists>x s1. m = (Done x, s1) \<and> f x s1 = (Done r, s))"
  by (cases m; cases "fst m") auto

lemma evaluate_args_length:
  "evaluate_args ev argExprs st = (Done vs, st1) \<Longrightarrow> length vs = length argExprs"
  by (induction argExprs arbitrary: st vs st1) (auto simp: eval_bind_Done)

lemma evaluate_call:
  "reaches_call expr \<Longrightarrow> evaluate H (Suc n) expr st = handle_call H (evaluate H n) expr st"
  by (simp add: reaches_call_def reserved_keys_def)

lemma handle_call_applies:
  assumes "entries expr = (f, JArr argExprs) # others"
    and "getFunction (cur_env st) f = Done fn"
    and "evaluate_args ev argExprs st = (Done vs, st1)"
  shows "handle_call H ev expr st = apply_function H ev f fn vs st1"
  using assms by (simp add: handle_call_def)

text \<open>
  C4 (amended). For every call whose target resolves to a user-defined function with an
  array of parameters and whose arguments all evaluate to values, an argument count that
  differs from the parameter count makes the call throw the arity error, which names the
  function, the number of parameters and the number of arguments. Nothing of the body is
  evaluated, and the state is the one the arguments left.
\<close>

theorem arity_mismatch_on_user_function:
  assumes "reaches_call expr"
    and "entries expr = (f, JArr argExprs) # others"
    and "getFunction (cur_env st) f = Done (UserFunction (Some (JArr ps)) body)"
    and "evaluate_args (evaluate H n) argExprs st = (Done vs, st1)"
    and "length ps \<noteq> length argExprs"
  shows "evaluate H (Suc n) expr st = (Throw (ArityMismatch f (length ps) (length argExprs)), st1)"
  unfolding evaluate_call [OF assms(1)] handle_call_applies [OF assms(2-4)]
  using evaluate_args_length [OF assms(4)] assms(5)
  by (simp add: apply_function_def)


theorem arity_mismatch_on_user_function_witness:
  "reaches_call call_f_one
   \<and> getFunction (cur_env state_with_f) ''f''
       = Done (UserFunction (Some (JArr [JStr ''a'', JStr ''b''])) (Some (JObj [(''ref'', JStr ''a'')])))
   \<and> evaluate_args (evaluate stub_host 1) [JNum (Finite 5)] state_with_f = (Done [VNum (Finite 5)], state_with_f)
   \<and> evaluate stub_host 2 call_f_one state_with_f = (Throw (ArityMismatch ''f'' 2 1), state_with_f)"
proof -
  have h1: "reaches_call call_f_one"
    by (simp add: reaches_call_def reserved_keys_def call_f_one_def has_key_def own_def)
  have h2: "entries call_f_one = (''f'', JArr [JNum (Finite 5)]) # []"
    by (simp add: call_f_one_def)
  have h3: "getFunction (cur_env state_with_f) ''f''
       = Done (UserFunction (Some (JArr [JStr ''a'', JStr ''b''])) (Some (JObj [(''ref'', JStr ''a'')])))"
    by (simp add: state_with_f_def createGlobalEnv_def builtins_def)
  have h4: "evaluate_args (evaluate stub_host (Suc 0)) [JNum (Finite 5)] state_with_f = (Done [VNum (Finite 5)], state_with_f)"
    by simp
  have h5: "length [JStr ''a'', JStr ''b''] \<noteq> length [JNum (Finite 5)]" by simp
  from arity_mismatch_on_user_function [OF h1 h2 h3 h4 h5] h1 h3 h4
  show ?thesis by (simp add: numeral_2_eq_2)
qed

text \<open>
  C4 (as stated, refuted). The builtin \<^verbatim>\<open>equals\<close>, declared with two parameters, called
  with one argument returns false and throws nothing; and the two-parameter user function
  \<open>f\<close> called with the single argument \<^verbatim>\<open>{ref: "nope"}\<close> fails with the error of the
  unbound variable, the arguments being evaluated before the counts are compared.
\<close>

theorem wrong_argument_count_without_arity_error:
  "evaluate stub_host 2 call_equals_one global_state = (Done (VBool False), global_state)
   \<and> evaluate stub_host 3 call_f_unbound state_with_f = (Throw (UndefinedVariable ''nope''), state_with_f)"
  by (simp add: call_equals_one_def call_f_unbound_def global_state_def state_with_f_def createGlobalEnv_def builtins_def
       numeral_eq_Suc has_key_def own_def handle_call_def apply_function_def argument_def handle_ref_def)

text \<open>
  No evaluation touches the parent link of the environment it is handed: the frames of
  the callers are out of reach of \<open>setVar\<close> and \<open>defineFunction\<close>, which the evaluator
  applies to the current environment only.
\<close>

lemma setVar_parent: "parent (setVar e x v) = parent e"
  by (cases e) simp

lemma defineFunction_parent: "parent (defineFunction e x fn) = parent e"
  by (cases e) simp

lemma bind_arguments_parent:
  "bind_arguments ps i vs e = Done e' \<Longrightarrow> parent e' = parent e"
  by (induction ps arbitrary: i e) (auto simp: outcome_bind_Done setVar_parent)

lemma local_env_parent:
  "local_env f params vs e = Done l \<Longrightarrow> parent l = Some e"
  by (cases "(f, params, vs, e)" rule: local_env.cases)
     (auto split: if_splits dest: bind_arguments_parent)

lemma eval_bind_parent:
  fixes m :: "'a outcome \<times> state" and f :: "'a \<Rightarrow> state \<Rightarrow> 'b outcome \<times> state"
  assumes "parent (cur_env (snd m)) = P"
    and "\<And>x s. parent (cur_env s) = P \<Longrightarrow> parent (cur_env (snd (f x s))) = P"
  shows "parent (cur_env (snd (eval_bind m f))) = P"
  using assms by (cases m; cases "fst m") auto

lemma evaluate_opt_parent:
  "keeps_parent ev \<Longrightarrow> parent (cur_env (snd (evaluate_opt ev opt st))) = parent (cur_env st)"
  by (cases opt) (auto simp: keeps_parent_def)

lemma evaluate_branch_parent:
  "keeps_parent ev \<Longrightarrow> parent (cur_env (snd (evaluate_branch ev opt st))) = parent (cur_env st)"
  by (cases opt) (auto simp: keeps_parent_def)

lemma evaluate_args_parent:
  "keeps_parent ev \<Longrightarrow> parent (cur_env (snd (evaluate_args ev es st))) = parent (cur_env st)"
proof (induction es arbitrary: st)
  case Nil
  then show ?case by simp
next
  case (Cons e es)
  have first: "parent (cur_env (snd (ev e st))) = parent (cur_env st)"
    using Cons.prems by (simp add: keeps_parent_def)
  show ?case
    unfolding evaluate_args.simps
  proof (rule eval_bind_parent [OF first])
    fix x and s :: state
    assume s: "parent (cur_env s) = parent (cur_env st)"
    have "parent (cur_env (snd (evaluate_args ev es s))) = parent (cur_env st)"
      using Cons.IH [OF Cons.prems, of s] s by simp
    then show "parent (cur_env (snd (eval_bind (evaluate_args ev es s) (\<lambda>vs st2. (Done (x # vs), st2)))))
                 = parent (cur_env st)"
      by (rule eval_bind_parent) simp
  qed
qed

lemma evaluate_do_parent:
  "keeps_parent ev \<Longrightarrow> parent (cur_env (snd (evaluate_do ev es r st))) = parent (cur_env st)"
proof (induction es arbitrary: st r)
  case Nil
  then show ?case by simp
next
  case (Cons e es)
  have first: "parent (cur_env (snd (ev e st))) = parent (cur_env st)"
    using Cons.prems by (simp add: keeps_parent_def)
  show ?case
    unfolding evaluate_do.simps
  proof (rule eval_bind_parent [OF first])
    fix x and s :: state
    assume "parent (cur_env s) = parent (cur_env st)"
    then show "parent (cur_env (snd (evaluate_do ev es x s))) = parent (cur_env st)"
      using Cons.IH [OF Cons.prems, of x s] by simp
  qed
qed

lemma handle_ref_parent: "parent (cur_env (snd (handle_ref e st))) = parent (cur_env st)"
  by (simp add: handle_ref_def split: option.split json.split)

lemma handle_function_parent: "parent (cur_env (snd (handle_function e st))) = parent (cur_env st)"
  by (simp add: handle_function_def defineFunction_parent split: option.split json.split)

lemma handle_let_parent:
  assumes "keeps_parent ev"
  shows "parent (cur_env (snd (handle_let ev e st))) = parent (cur_env st)"
proof (cases "own e ''let''")
  case None
  then show ?thesis by (simp add: handle_let_def)
next
  case (Some letFields)
  show ?thesis
  proof (cases "letFields = JNull")
    case True
    with Some show ?thesis by (simp add: handle_let_def)
  next
    case False
    have "parent (cur_env (snd (eval_bind (evaluate_opt ev (own letFields ''value'') st)
              (\<lambda>evaluatedValue st1.
                 case own letFields ''name'' of
                   Some (JStr name) \<Rightarrow>
                     (Done evaluatedValue, st1\<lparr>cur_env := setVar (cur_env st1) name evaluatedValue\<rparr>)
                 | _ \<Rightarrow> (Unmodelled, st1))))) = parent (cur_env st)"
      by (rule eval_bind_parent [OF evaluate_opt_parent [OF assms]])
         (simp add: setVar_parent split: option.split json.split)
    with Some False show ?thesis by (simp add: handle_let_def)
  qed
qed

lemma handle_do_parent:
  assumes "keeps_parent ev"
  shows "parent (cur_env (snd (handle_do ev e st))) = parent (cur_env st)"
  by (simp add: handle_do_def evaluate_do_parent [OF assms] split: option.split json.split)

lemma handle_if_parent:
  assumes "keeps_parent ev"
  shows "parent (cur_env (snd (handle_if ev e st))) = parent (cur_env st)"
proof (cases "own e ''if''")
  case None
  then show ?thesis by (simp add: handle_if_def)
next
  case (Some ifFields)
  show ?thesis
  proof (cases "ifFields = JNull")
    case True
    with Some show ?thesis by (simp add: handle_if_def)
  next
    case False
    have "parent (cur_env (snd (eval_bind (evaluate_opt ev (own ifFields ''condition'') st)
              (\<lambda>condResult st1.
                 if truthy condResult
                 then evaluate_branch ev (own ifFields ''true'') st1
                 else evaluate_branch ev (own ifFields ''false'') st1)))) = parent (cur_env st)"
      by (rule eval_bind_parent [OF evaluate_opt_parent [OF assms]])
         (simp add: evaluate_branch_parent [OF assms])
    with Some False show ?thesis by (simp add: handle_if_def)
  qed
qed

lemma body_in_frame_parent:
  assumes "keeps_parent ev" and "parent l = Some (cur_env s)"
  shows "(case evaluate_opt ev body (s\<lparr>cur_env := l\<rparr>) of
            (result, st2) \<Rightarrow> (result, st2\<lparr>cur_env := caller_env (cur_env st2) (cur_env s)\<rparr>))
         = (fst (evaluate_opt ev body (s\<lparr>cur_env := l\<rparr>)),
            (snd (evaluate_opt ev body (s\<lparr>cur_env := l\<rparr>)))\<lparr>cur_env := cur_env s\<rparr>)"
proof -
  have "parent (cur_env (snd (evaluate_opt ev body (s\<lparr>cur_env := l\<rparr>)))) = Some (cur_env s)"
    using evaluate_opt_parent [OF assms(1), of body "s\<lparr>cur_env := l\<rparr>"] assms(2) by simp
  then show ?thesis
    by (cases "evaluate_opt ev body (s\<lparr>cur_env := l\<rparr>)") (simp add: caller_env_def)
qed

lemma apply_function_parent:
  assumes "keeps_parent ev"
  shows "parent (cur_env (snd (apply_function H ev f fn vs st))) = parent (cur_env st)"
proof (cases fn)
  case (Builtin b)
  then show ?thesis by (simp add: apply_function_def split: prod.split)
next
  case (UserFunction params body)
  show ?thesis
  proof (cases "local_env f params vs (cur_env st)")
    case (Done l)
    from local_env_parent [OF Done] have "parent l = Some (cur_env st)" .
    from body_in_frame_parent [OF assms this, of body] UserFunction Done
    show ?thesis by (simp add: apply_function_def)
  qed (use UserFunction in \<open>simp_all add: apply_function_def\<close>)
qed

lemma handle_call_parent:
  assumes "keeps_parent ev"
  shows "parent (cur_env (snd (handle_call H ev e st))) = parent (cur_env st)"
proof (cases "entries e")
  case Nil
  then show ?thesis by (simp add: handle_call_def)
next
  case (Cons kv others)
  obtain f args where kv: "kv = (f, args)" by (cases kv)
  have "parent (cur_env (snd (eval_bind (getFunction (cur_env st) f, st)
            (\<lambda>func st0.
               eval_bind (map_receiver args, st0)
                 (\<lambda>argExprs st0.
                    eval_bind (evaluate_args ev argExprs st0)
                      (\<lambda>evaluatedArgs st1. apply_function H ev f func evaluatedArgs st1)))))) = parent (cur_env st)"
    apply (rule eval_bind_parent, simp)
    apply (rule eval_bind_parent, simp)
    apply (rule eval_bind_parent)
     apply (simp add: evaluate_args_parent [OF assms])
    apply (simp add: apply_function_parent [OF assms])
    done
  with Cons kv show ?thesis by (simp add: handle_call_def)
qed

lemma evaluate_keeps_parent: "keeps_parent (evaluate H n)"
proof (induction n)
  case 0
  show ?case by (simp add: keeps_parent_def)
next
  case (Suc n)
  show ?case
    unfolding keeps_parent_def
    by (simp add: handle_ref_parent handle_function_parent handle_let_parent [OF Suc]
          handle_do_parent [OF Suc] handle_if_parent [OF Suc] handle_call_parent [OF Suc])
qed

lemma bind_arguments_names:
  "list_all2 (\<lambda>p name. param_key p = Done name) ps names \<Longrightarrow>
     bind_arguments ps i vs (Environment m fs p)
       = Done (Environment (m(names [\<mapsto>] map (argument vs) [i..<i + length ps])) fs p)"
proof (induction ps names arbitrary: i m rule: list_all2_induct)
  case Nil
  show ?case by simp
next
  case (Cons q ps name names)
  have range: "[i..<i + length (q # ps)] = i # [Suc i..<Suc i + length ps]"
    by (simp add: upt_rec)
  have "bind_arguments (q # ps) i vs (Environment m fs p)
          = bind_arguments ps (Suc i) vs (Environment (m(name \<mapsto> argument vs i)) fs p)"
    using Cons.hyps(1) by simp
  also have "\<dots> = Done (Environment ((m(name \<mapsto> argument vs i))
                         (names [\<mapsto>] map (argument vs) [Suc i..<Suc i + length ps])) fs p)"
    by (rule Cons.IH)
  also have "\<dots> = Done (Environment (m(name # names [\<mapsto>] map (argument vs) [i..<i + length (q # ps)])) fs p)"
    unfolding range by simp
  finally show ?case .
qed

lemma arguments_all: "map (argument vs) [0..<length vs] = vs"
  by (rule nth_equalityI) (simp_all add: argument_def)

lemma local_env_names:
  assumes "names_extracted ps names" and "length ps = length vs"
  shows "local_env f (Some (JArr ps)) vs e
           = Done (Environment (Map.empty(names [\<mapsto>] vs)) Map.empty (Some e))"
proof -
  have "list_all2 (\<lambda>p name. param_key p = Done name) ps names"
    using assms(1) unfolding names_extracted_def by (rule list_all2_mono) simp
  from bind_arguments_names [OF this, of 0 vs Map.empty Map.empty "Some e"] assms(2)
  show ?thesis by (simp add: arguments_all)
qed

text \<open>
  C3 (amended). For every call to a user-defined function whose arguments evaluate to
  values, whose argument count matches and from whose parameter entries the destructuring
  yields the declared names, \<open>evaluate\<close> creates a new frame without functions whose
  parent is the environment of the call (not the scope the function was defined in), binds
  the parameter names in order to the argument values, evaluates the body in that frame,
  and continues in the environment of the call.
\<close>

theorem user_call_frame_on_call_site:
  assumes "reaches_call expr"
    and "entries expr = (f, JArr argExprs) # others"
    and "getFunction (cur_env st) f = Done (UserFunction (Some (JArr ps)) (Some body))"
    and "names_extracted ps names"
    and "evaluate_args (evaluate H n) argExprs st = (Done vs, st1)"
    and "length ps = length argExprs"
  shows "evaluate H (Suc n) expr st =
           (let frame = Environment (Map.empty(names [\<mapsto>] vs)) Map.empty (Some (cur_env st1));
                r = evaluate H n body (st1\<lparr>cur_env := frame\<rparr>)
            in (fst r, (snd r)\<lparr>cur_env := cur_env st1\<rparr>))"
proof -
  have len: "length ps = length vs"
    using evaluate_args_length [OF assms(5)] assms(6) by simp
  let ?frame = "Environment (Map.empty(names [\<mapsto>] vs)) Map.empty (Some (cur_env st1))"
  have "parent ?frame = Some (cur_env st1)" by simp
  from body_in_frame_parent [OF evaluate_keeps_parent this, of H n "Some body"]
  have ret: "(case evaluate H n body (st1\<lparr>cur_env := ?frame\<rparr>) of
               (result, st2) \<Rightarrow> (result, st2\<lparr>cur_env := caller_env (cur_env st2) (cur_env st1)\<rparr>))
             = (fst (evaluate H n body (st1\<lparr>cur_env := ?frame\<rparr>)),
                (snd (evaluate H n body (st1\<lparr>cur_env := ?frame\<rparr>)))\<lparr>cur_env := cur_env st1\<rparr>)"
    by simp
  have frame: "local_env f (Some (JArr ps)) vs (cur_env st1) = Done ?frame"
    by (rule local_env_names [OF assms(4) len])
  show ?thesis
    unfolding evaluate_call [OF assms(1)] handle_call_applies [OF assms(2,3,5)]
    by (simp add: apply_function_def frame ret Let_def del: local_env.simps)
qed

theorem user_call_frame_on_call_site_witness:
  "reaches_call call_g
   \<and> getFunction (cur_env state_with_g) ''g''
       = Done (UserFunction (Some (JArr [JStr ''x'', JStr ''y''])) (Some (JObj [(''ref'', JStr ''y'')])))
   \<and> names_extracted [JStr ''x'', JStr ''y''] [''x'', ''y'']
   \<and> evaluate_args (evaluate stub_host 1) [JNum (Finite 1), JNum (Finite 2)] state_with_g
       = (Done [VNum (Finite 1), VNum (Finite 2)], state_with_g)
   \<and> evaluate stub_host 2 call_g state_with_g = (Done (VNum (Finite 2)), state_with_g)"
proof -
  have h1: "reaches_call call_g"
    by (simp add: reaches_call_def reserved_keys_def call_g_def has_key_def own_def)
  have h2: "entries call_g = (''g'', JArr [JNum (Finite 1), JNum (Finite 2)]) # []"
    by (simp add: call_g_def)
  have h3: "getFunction (cur_env state_with_g) ''g''
       = Done (UserFunction (Some (JArr [JStr ''x'', JStr ''y''])) (Some (JObj [(''ref'', JStr ''y'')])))"
    by (simp add: state_with_g_def createGlobalEnv_def builtins_def)
  have h4: "names_extracted [JStr ''x'', JStr ''y''] [''x'', ''y'']"
    by (simp add: names_extracted_def)
  have h5: "evaluate_args (evaluate stub_host (Suc 0)) [JNum (Finite 1), JNum (Finite 2)] state_with_g
              = (Done [VNum (Finite 1), VNum (Finite 2)], state_with_g)"
    by simp
  have h6: "length [JStr ''x'', JStr ''y''] = length [JNum (Finite 1), JNum (Finite 2)]" by simp
  have "evaluate stub_host (Suc (Suc 0)) call_g state_with_g = (Done (VNum (Finite 2)), state_with_g)"
    using user_call_frame_on_call_site [OF h1 h2 h3 h4 h5 h6]
    by (simp add: Let_def has_key_def own_def handle_ref_def)
  with h1 h3 h4 h5 show ?thesis by (simp add: numeral_2_eq_2)
qed

text \<open>
  C3 (as stated, refuted). \<open>f\<close> is defined in the global environment and called from a
  frame on top of it that binds \<^verbatim>\<open>y\<close>. The frame created for the call has the calling
  frame as its parent, not the global environment \<open>f\<close> was defined in: the body
  \<^verbatim>\<open>{ref: "y"}\<close> evaluates to the caller's 5, where a frame on top of the defining
  scope has no \<^verbatim>\<open>y\<close>.
\<close>

theorem frame_parent_is_call_site_not_defining_scope:
  "defining_scope call_site ''f'' = Some root_with_f
   \<and> local_env ''f'' (Some (JArr [])) [] call_site = Done (Environment Map.empty Map.empty (Some call_site))
   \<and> call_site \<noteq> root_with_f
   \<and> evaluate stub_host 2 (JObj [(''f'', JArr [])]) \<lparr>cur_env = call_site, console = []\<rparr>
       = (Done (VNum (Finite 5)), \<lparr>cur_env = call_site, console = []\<rparr>)
   \<and> getVar (Environment Map.empty Map.empty (Some root_with_f)) ''y'' = Throw (UndefinedVariable ''y'')"
  by (simp add: call_site_def root_with_f_def createGlobalEnv_def builtins_def numeral_eq_Suc
        has_key_def own_def handle_call_def apply_function_def handle_ref_def caller_env_def)

lemma evaluate_let:
  "reaches_let expr \<Longrightarrow> evaluate H (Suc n) expr st = handle_let (evaluate H n) expr st"
  by (simp add: reaches_let_def)

lemma getVar_setVar: "getVar (setVar e x v) x = Done v"
  by (cases e) simp

lemma vars_setVar: "vars (setVar e x v) = (vars e)(x \<mapsto> v)"
  by (cases e) simp

lemma funcs_setVar: "funcs (setVar e x v) = funcs e"
  by (cases e) simp

text \<open>
  C8. A let whose value evaluates to \<open>v\<close> ends in the environment
  \<open>setVar env x v\<close>, and \<open>setVar\<close> writes the current frame only: the variables of the
  frame are the old ones with \<open>x\<close> bound to \<open>v\<close>, its functions are untouched, its parent
  (with every binding of every ancestor) is the parent from before the let, and \<open>getVar\<close>
  in the frame finds the new value, whatever an ancestor binds \<open>x\<close> to.
\<close>

theorem let_writes_current_frame_only:
  assumes "reaches_let expr"
    and "own expr ''let'' = Some letFields"
    and "own letFields ''name'' = Some (JStr x)"
    and "own letFields ''value'' = Some valueExpr"
    and "evaluate H n valueExpr st = (Done v, st1)"
  shows "evaluate H (Suc n) expr st = (Done v, st1\<lparr>cur_env := setVar (cur_env st1) x v\<rparr>)
         \<and> vars (setVar (cur_env st1) x v) = (vars (cur_env st1))(x \<mapsto> v)
         \<and> funcs (setVar (cur_env st1) x v) = funcs (cur_env st1)
         \<and> parent (setVar (cur_env st1) x v) = parent (cur_env st)
         \<and> getVar (setVar (cur_env st1) x v) x = Done v"
proof -
  have nn: "letFields \<noteq> JNull" using assms(3) by (auto simp: own_JNull)
  have run: "evaluate H (Suc n) expr st = (Done v, st1\<lparr>cur_env := setVar (cur_env st1) x v\<rparr>)"
    unfolding evaluate_let [OF assms(1)] handle_let_def
    using assms(2-5) nn by simp
  have "parent (cur_env (snd (evaluate H n valueExpr st))) = parent (cur_env st)"
    using evaluate_keeps_parent [of H n] by (simp add: keeps_parent_def)
  then have "parent (cur_env st1) = parent (cur_env st)"
    using assms(5) by simp
  with run show ?thesis
    by (simp add: setVar_parent getVar_setVar vars_setVar funcs_setVar)
qed

theorem let_writes_current_frame_only_witness:
  "reaches_let let_x_two
   \<and> evaluate stub_host 1 (JNum (Finite 2)) inner_state = (Done (VNum (Finite 2)), inner_state)
   \<and> getVar (cur_env inner_state) ''x'' = Done (VNum (Finite 1))
   \<and> fst (evaluate stub_host 2 let_x_two inner_state) = Done (VNum (Finite 2))
   \<and> getVar (cur_env (snd (evaluate stub_host 2 let_x_two inner_state))) ''x'' = Done (VNum (Finite 2))
   \<and> parent (cur_env (snd (evaluate stub_host 2 let_x_two inner_state))) = Some outer_frame
   \<and> getVar outer_frame ''x'' = Done (VNum (Finite 1))"
proof -
  let ?flds = "JObj [(''name'', JStr ''x''), (''value'', JNum (Finite 2))]"
  have h1: "reaches_let let_x_two"
    by (simp add: reaches_let_def let_x_two_def has_key_def own_def)
  have h2: "own let_x_two ''let'' = Some ?flds" by (simp add: let_x_two_def own_def)
  have h3: "own ?flds ''name'' = Some (JStr ''x'')" by (simp add: own_def)
  have h4: "own ?flds ''value'' = Some (JNum (Finite 2))" by (simp add: own_def)
  have h5: "evaluate stub_host (Suc 0) (JNum (Finite 2)) inner_state = (Done (VNum (Finite 2)), inner_state)"
    by simp
  from let_writes_current_frame_only [OF h1 h2 h3 h4 h5] h1 h5
  show ?thesis
    by (simp add: numeral_2_eq_2) (simp add: inner_state_def outer_frame_def)
qed

section \<open>Properties of the runner\<close>

lemma collect_unless: "collect_macros [JObj [(''unless'', JArr [JBool False, JObj [(''print'', JArr [JStr ''x''])]])],
                           unless_definition] = unless_macros"
  by (simp add: collect_macros_def List.map_filter_def macro_entry_def own_def unless_definition_def unless_macros_def)

text \<open>
  C1 (as stated, refuted). For the program that invokes \<open>unless\<close> and then defines it,
  \<open>runProgram\<close> fails at the invocation, which it evaluates as a call of an undefined
  function, and writes nothing; the runner of the specification expands the invocation
  first, so that \<^verbatim>\<open>x\<close> is printed before the definition is reached.
\<close>

theorem runProgram_does_not_expand_macros:
  "runProgram stub_host 6 use_before_definition = (Throw (UndefinedFunction ''unless''), [])
   \<and> runProgram_spec stub_host 6 use_before_definition = (Throw MacroNotImplemented, [[VStr ''x'']])"
  apply (simp add: runProgram_def runProgram_spec_def validateProgramTypes_def use_before_definition_def collect_unless)
  apply (simp add: unless_definition_def unless_macros_def global_state_def createGlobalEnv_def builtins_def numeral_eq_Suc
           has_key_def own_def handle_call_def handle_if_def apply_function_def)
  done

lemma run_all_snoc_Done:
  "run_all ev pre st = (Done u, st1) \<Longrightarrow> ev e st1 = (Done v, st2)
     \<Longrightarrow> run_all ev (pre @ [e]) st = (Done (), st2)"
  by (induction pre arbitrary: st) (auto simp: eval_bind_Done)

lemma run_all_halts:
  "run_all ev pre st = (Done u, st1) \<Longrightarrow> ev e st1 = (Throw err, st2)
     \<Longrightarrow> run_all ev (pre @ e # post) st = (Throw err, st2)"
  by (induction pre arbitrary: st) (auto simp: eval_bind_Done)

text \<open>
  C1 (amended). \<open>runProgram\<close> rejects a program whose type schemas do not validate
  before anything is evaluated (nothing is written to the console). Otherwise it evaluates
  the top-level expressions as they stand, without any macro expansion, in order, in one
  fresh root environment that holds the builtins and no variable, and stops at the first
  error: the expressions after it are not evaluated. A top-level macro definition is such
  an error.
\<close>

theorem runProgram_contract:
  "(\<not> validateProgramTypes H p \<longrightarrow> runProgram H n p = (Throw InvalidProgramTypes, []))
   \<and> (validateProgramTypes H p \<and> program_body p = Some exprs \<longrightarrow>
        runProgram H n p = (fst (run_all (evaluate H n) exprs global_state),
                            console (snd (run_all (evaluate H n) exprs global_state))))
   \<and> getFunction (cur_env global_state) name
       = (case map_of builtins name of Some fn \<Rightarrow> Done fn | None \<Rightarrow> Throw (UndefinedFunction name))
   \<and> getVar (cur_env global_state) name = Throw (UndefinedVariable name)
   \<and> console global_state = []
   \<and> run_all ev [] st = (Done (), st)
   \<and> (run_all ev pre st = (Done (), st1) \<and> ev e st1 = (Done v, st2)
        \<longrightarrow> run_all ev (pre @ [e]) st = (Done (), st2))
   \<and> (run_all ev pre st = (Done (), st1) \<and> ev e st1 = (Throw err, st2)
        \<longrightarrow> run_all ev (pre @ e # post) st = (Throw err, st2))
   \<and> (reaches_macro e \<longrightarrow> evaluate H (Suc n) e st = (Throw MacroNotImplemented, st))"
proof -
  have a: "\<not> validateProgramTypes H p \<longrightarrow> runProgram H n p = (Throw InvalidProgramTypes, [])"
    by (simp add: runProgram_def)
  have b: "validateProgramTypes H p \<and> program_body p = Some exprs \<longrightarrow>
        runProgram H n p = (fst (run_all (evaluate H n) exprs global_state),
                            console (snd (run_all (evaluate H n) exprs global_state)))"
    by (simp add: runProgram_def global_state_def split: prod.split)
  have c: "getFunction (cur_env global_state) name
       = (case map_of builtins name of Some fn \<Rightarrow> Done fn | None \<Rightarrow> Throw (UndefinedFunction name))"
    by (simp add: global_state_def createGlobalEnv_def builtins_def)
  have d: "getVar (cur_env global_state) name = Throw (UndefinedVariable name)"
    by (simp add: global_state_def createGlobalEnv_def builtins_def)
  have m: "reaches_macro e \<longrightarrow> evaluate H (Suc n) e st = (Throw MacroNotImplemented, st)"
    by (simp add: reaches_macro_def)
  from a b c d m show ?thesis
    by (auto simp: global_state_def intro: run_all_snoc_Done run_all_halts)
qed

theorem runProgram_contract_witness:
  "\<not> validateProgramTypes stub_host bad_types_program
   \<and> runProgram stub_host 2 bad_types_program = (Throw InvalidProgramTypes, [])
   \<and> validateProgramTypes stub_host print_macro_print
   \<and> reaches_macro unless_definition
   \<and> runProgram stub_host 2 print_macro_print = (Throw MacroNotImplemented, [[VStr ''x'']])"
proof -
  let ?print_x = "JObj [(''print'', JArr [JStr ''x''])]"
  let ?print_y = "JObj [(''print'', JArr [JStr ''y''])]"
  let ?ev = "evaluate stub_host (Suc (Suc 0))"
  let ?st1 = "global_state\<lparr>console := [[VStr ''x'']]\<rparr>"
  have bad: "\<not> validateProgramTypes stub_host bad_types_program"
    by (simp add: validateProgramTypes_def bad_types_program_def)
  have good: "validateProgramTypes stub_host print_macro_print"
    by (simp add: validateProgramTypes_def print_macro_print_def)
  have body: "program_body print_macro_print = Some ([?print_x] @ unless_definition # [?print_y])"
    by (simp add: print_macro_print_def)
  have printed: "?ev ?print_x global_state = (Done VUndef, ?st1)"
    by (simp add: global_state_def createGlobalEnv_def builtins_def has_key_def own_def
          handle_call_def apply_function_def)
  have macro: "reaches_macro unless_definition"
    by (simp add: reaches_macro_def unless_definition_def has_key_def own_def)
  note contract = runProgram_contract [where H = stub_host and n = "Suc 0" and ev = ?ev]
  have first: "run_all ?ev ([] @ [?print_x]) global_state = (Done (), ?st1)"
    using contract [where pre = "[]" and st = global_state and ?st1.0 = global_state
                      and e = ?print_x and v = VUndef and ?st2.0 = ?st1] printed
    by simp
  have thrown: "?ev unless_definition ?st1 = (Throw MacroNotImplemented, ?st1)"
    using contract [where e = unless_definition and st = ?st1] macro by simp
  have halted: "run_all ?ev ([?print_x] @ unless_definition # [?print_y]) global_state
                  = (Throw MacroNotImplemented, ?st1)"
    using contract [where pre = "[?print_x]" and st = global_state and ?st1.0 = ?st1
                      and e = unless_definition and err = MacroNotImplemented and ?st2.0 = ?st1
                      and post = "[?print_y]"] first thrown
    by simp
  note whole = runProgram_contract [where H = stub_host and n = "Suc (Suc 0)"]
  from whole [where p = print_macro_print and exprs = "[?print_x] @ unless_definition # [?print_y]"]
       good body
  have "runProgram stub_host (Suc (Suc 0)) print_macro_print
          = (fst (run_all ?ev ([?print_x] @ unless_definition # [?print_y]) global_state),
             console (snd (run_all ?ev ([?print_x] @ unless_definition # [?print_y]) global_state)))"
    by blast
  then have run: "runProgram stub_host (Suc (Suc 0)) print_macro_print
                    = (Throw MacroNotImplemented, [[VStr ''x'']])"
    unfolding halted by simp
  have rejected: "runProgram stub_host (Suc (Suc 0)) bad_types_program = (Throw InvalidProgramTypes, [])"
    using whole [where p = bad_types_program] bad by blast
  from bad rejected good macro run show ?thesis by (simp add: numeral_2_eq_2)
qed

end
